theory Spec2Isabelle
  imports Main
begin

section \<open>The sidebar of the menu editor (src/renderer/editor/sidebar/sidebar.ts)\<close>

text \<open>
  The class \<open>Sidebar\<close> is embedded as a record of its fields, of the part of the rendered
  container its listeners touch, and of the settings of the main process. Every listener
  and the method \<open>setVisibility\<close> is the list of its statements, in source order; a
  statement either fails with a \<open>TypeError\<close> (a member access on \<open>null\<close> or
  \<open>undefined\<close>) or returns the next state. An exception ends the listener and keeps
  the effects of the statements before it.
\<close>

subsection \<open>Values of the host environment\<close>

datatype error = TypeError

text \<open>
  An \<open>HTMLVideoElement\<close>, reduced to the four attributes the class reads or writes.
  \<open>play()\<close> clears \<open>paused\<close>, \<open>pause()\<close> sets it, and assigning \<open>currentTime\<close> seeks.
  The position is counted in whole time units.
\<close>

record video =
  src :: string
  loop :: bool
  currentTime :: nat
  paused :: bool

type_synonym classList = "string list"

definition classList_add :: "string \<Rightarrow> classList \<Rightarrow> classList" where
  "classList_add c cl = (if c \<in> set cl then cl else cl @ [c])"

definition classList_remove :: "string \<Rightarrow> classList \<Rightarrow> classList" where
  "classList_remove c cl = filter (\<lambda>x. x \<noteq> c) cl"

text \<open>
  A JavaScript array of element references: reading outside the array gives
  \<open>undefined\<close>, writing outside extends it. \<open>None\<close> stands for \<open>null\<close> and
  \<open>undefined\<close> alike, both of which throw on a member access.
\<close>

definition js_get :: "'a option list \<Rightarrow> nat \<Rightarrow> 'a option" where
  "js_get xs i = (if i < length xs then xs ! i else None)"

definition js_set :: "'a option list \<Rightarrow> nat \<Rightarrow> 'a option \<Rightarrow> 'a option list" where
  "js_set xs i v =
     (if i < length xs then xs[i := v]
      else xs @ replicate (i - length xs) None @ [v])"

text \<open>Decimal digits of an index, as a template literal prints them.\<close>

fun decimal :: "nat \<Rightarrow> string" where
  "decimal n =
     (if n < 10 then [char_of (48 + n)]
      else decimal (n div 10) @ [char_of (48 + n mod 10)])"

declare decimal.simps [simp del]

subsection \<open>The state\<close>

text \<open>
  \<open>visible\<close>, \<open>videos\<close> and \<open>lastVisibleVideo\<close> are the private fields of the class.
  \<open>videos\<close> holds references: the entry \<open>Some r\<close> refers to the element
  \<open>#introduction-slides-video-r\<close> of the container.

  The container is rendered from templates that are not part of the source file, so its
  content is a parameter: \<open>elements\<close> gives the class list of the element with a given
  id (\<open>None\<close> when \<open>querySelector\<close> finds no such element) and \<open>slide_videos\<close> is the
  list of the video elements \<open>#introduction-slides-video-0\<close>, \<open>-1\<close>, ... that the
  introduction template renders, one for each slide.

  \<open>show_once\<close> tells whether the \<open>once\<close> listener of \<open>show.bs.collapse\<close> is still
  registered. \<open>appSettings\<close> is the store behind \<open>window.api.appSettings\<close>: the
  \<open>setKey\<close> calls received so far, newest first.
\<close>

record sidebar =
  visible :: bool
  videos :: "nat option list"
  lastVisibleVideo :: nat
  elements :: "string \<Rightarrow> classList option"
  slide_videos :: "video list"
  show_once :: bool
  appSettings :: "(string \<times> bool) list"

type_synonym stmt = "sidebar \<Rightarrow> error + sidebar"

text \<open>
  Running the statements of a listener: the result is the exception, if one was thrown,
  and the state reached. \<open>states\<close> lists the state after each completed statement.
\<close>

fun run :: "stmt list \<Rightarrow> sidebar \<Rightarrow> error option \<times> sidebar" where
  "run [] s = (None, s)"
| "run (c # cs) s = (case c s of Inl e \<Rightarrow> (Some e, s) | Inr s' \<Rightarrow> run cs s')"

fun states :: "stmt list \<Rightarrow> sidebar \<Rightarrow> sidebar list" where
  "states [] s = []"
| "states (c # cs) s = (case c s of Inl e \<Rightarrow> [] | Inr s' \<Rightarrow> s' # states cs s')"

subsection \<open>Statements on the container\<close>

text \<open>\<open>this.container.querySelector('#sel').classList.add(c)\<close> and \<open>.remove(c)\<close>.\<close>

definition add_class :: "string \<Rightarrow> string \<Rightarrow> stmt" where
  "add_class sel c s =
     (case elements s sel of
        None \<Rightarrow> Inl TypeError
      | Some cl \<Rightarrow> Inr (s\<lparr>elements := (elements s)(sel \<mapsto> classList_add c cl)\<rparr>))"

definition remove_class :: "string \<Rightarrow> string \<Rightarrow> stmt" where
  "remove_class sel c s =
     (case elements s sel of
        None \<Rightarrow> Inl TypeError
      | Some cl \<Rightarrow> Inr (s\<lparr>elements := (elements s)(sel \<mapsto> classList_remove c cl)\<rparr>))"

definition has_class :: "sidebar \<Rightarrow> string \<Rightarrow> string \<Rightarrow> bool" where
  "has_class s sel c = (case elements s sel of None \<Rightarrow> False | Some cl \<Rightarrow> c \<in> set cl)"

text \<open>\<open>this.container.querySelector(`#introduction-slides-video-${i}`)\<close>.\<close>

definition query_video :: "sidebar \<Rightarrow> nat \<Rightarrow> nat option" where
  "query_video s i = (if i < length (slide_videos s) then Some i else None)"

text \<open>
  The element that \<open>this.videos[i]\<close> evaluates to, for a member access. A reference to
  an element the container does not have cannot arise in the program; it is treated
  like \<open>null\<close>.
\<close>

definition video_ref :: "sidebar \<Rightarrow> nat \<Rightarrow> nat option" where
  "video_ref s i =
     (case js_get (videos s) i of
        None \<Rightarrow> None
      | Some r \<Rightarrow> if r < length (slide_videos s) then Some r else None)"

definition video_update :: "nat \<Rightarrow> (video \<Rightarrow> video) \<Rightarrow> sidebar \<Rightarrow> sidebar" where
  "video_update r f s = s\<lparr>slide_videos := (slide_videos s)[r := f (slide_videos s ! r)]\<rparr>"

definition on_video :: "nat \<Rightarrow> (video \<Rightarrow> video) \<Rightarrow> stmt" where
  "on_video i f s =
     (case video_ref s i of
        None \<Rightarrow> Inl TypeError
      | Some r \<Rightarrow> Inr (video_update r f s))"

definition set_src :: "nat \<Rightarrow> string \<Rightarrow> stmt" where
  "set_src i url = on_video i (\<lambda>v. v\<lparr>src := url\<rparr>)"

definition set_loop :: "nat \<Rightarrow> bool \<Rightarrow> stmt" where
  "set_loop i b = on_video i (\<lambda>v. v\<lparr>loop := b\<rparr>)"

definition set_currentTime :: "nat \<Rightarrow> nat \<Rightarrow> stmt" where
  "set_currentTime i t = on_video i (\<lambda>v. v\<lparr>currentTime := t\<rparr>)"

definition play :: "nat \<Rightarrow> stmt" where
  "play i = on_video i (\<lambda>v. v\<lparr>paused := False\<rparr>)"

definition pause :: "nat \<Rightarrow> stmt" where
  "pause i = on_video i (\<lambda>v. v\<lparr>paused := True\<rparr>)"

text \<open>A statement whose index is \<open>this.lastVisibleVideo\<close>, read when it runs.\<close>

definition at_lastVisibleVideo :: "(nat \<Rightarrow> stmt) \<Rightarrow> stmt" where
  "at_lastVisibleVideo c s = c (lastVisibleVideo s) s"

subsection \<open>Statements on the fields and on the settings\<close>

definition assign_visible :: "bool \<Rightarrow> stmt" where
  "assign_visible v s = Inr (s\<lparr>visible := v\<rparr>)"

definition assign_lastVisibleVideo :: "nat \<Rightarrow> stmt" where
  "assign_lastVisibleVideo k s = Inr (s\<lparr>lastVisibleVideo := k\<rparr>)"

definition assign_video :: "nat \<Rightarrow> stmt" where
  "assign_video i s = Inr (s\<lparr>videos := js_set (videos s) i (query_video s i)\<rparr>)"

definition remove_once_listener :: stmt where
  "remove_once_listener s = Inr (s\<lparr>show_once := False\<rparr>)"

text \<open>\<open>window.api.appSettings.setKey(k, v)\<close>; the store records the call.\<close>

definition setKey :: "string \<Rightarrow> bool \<Rightarrow> stmt" where
  "setKey k v s = Inr (s\<lparr>appSettings := (k, v) # appSettings s\<rparr>)"

text \<open>The value persisted under a key: that of the newest \<open>setKey\<close>, if any.\<close>

definition persisted :: "sidebar \<Rightarrow> string \<Rightarrow> bool option" where
  "persisted s k = map_of (appSettings s) k"

text \<open>
  Modelled from the spec: \<open>window.api.appSettings.getKey\<close> is implemented in the main
  process, outside the source file. The spec gives it as \<open>getKey(name) -> Promise<value>\<close>
  and says of the visibility that it is initialised from the Settings Store at
  construction, default \<open>true\<close> if unset. The value the promise resolves with:
\<close>

definition getKey :: "(string \<times> bool) list \<Rightarrow> string \<Rightarrow> bool" where
  "getKey st k = (case map_of st k of None \<Rightarrow> True | Some v \<Rightarrow> v)"

subsection \<open>setVisibility\<close>

definition setVisibility_stmts :: "bool \<Rightarrow> sidebar \<Rightarrow> stmt list" where
  "setVisibility_stmts v s =
     (if visible s \<noteq> v then
        (if v then
           [add_class ''kando-editor-sidebar-area'' ''visible'',
            add_class ''hide-sidebar-button'' ''visible'',
            remove_class ''show-sidebar-button'' ''visible'']
         else
           [remove_class ''kando-editor-sidebar-area'' ''visible'',
            remove_class ''hide-sidebar-button'' ''visible'',
            add_class ''show-sidebar-button'' ''visible''])
        @ [assign_visible v, setKey ''sidebarVisible'' v]
      else [])"

definition setVisibility :: "bool \<Rightarrow> sidebar \<Rightarrow> error option \<times> sidebar" where
  "setVisibility v s = run (setVisibility_stmts v s) s"

subsection \<open>The listeners\<close>

text \<open>
  The events the constructor registers a listener for: \<open>show.bs.collapse\<close>,
  \<open>shown.bs.collapse\<close> and \<open>hidden.bs.collapse\<close> of the introduction tab,
  \<open>slide.bs.carousel\<close> with its field \<open>to\<close>, the clicks on the two sidebar buttons, the
  change notification of the settings and the resolution of the initial \<open>getKey\<close>.
\<close>

datatype event =
    ShowCollapse
  | ShownCollapse
  | HiddenCollapse
  | SlideCarousel nat
  | ClickShow
  | ClickHide
  | SettingsChanged bool
  | FetchResolved bool

text \<open>
  The body of \<open>for (let i = 0; i < 5; ++i)\<close> in the \<open>once\<close> listener. \<open>require\<close>
  is resolved by the bundler; the clip is identified here by the path it is asked for.
\<close>

definition video_asset :: "nat \<Rightarrow> string" where
  "video_asset i = ''../../../../assets/videos/introduction-'' @ decimal (i + 1) @ ''.mp4''"

definition resolve_video :: "nat \<Rightarrow> stmt list" where
  "resolve_video i = [assign_video i, set_src i (video_asset i), set_loop i True]"

fun for_loop :: "nat \<Rightarrow> nat \<Rightarrow> (nat \<Rightarrow> stmt list) \<Rightarrow> stmt list" where
  "for_loop i 0 body = []"
| "for_loop i (Suc n) body = body i @ for_loop (Suc i) n body"

text \<open>
  The statements a listener runs for an event. A \<open>once\<close> listener is removed before its
  callback is called.
\<close>

fun listener :: "event \<Rightarrow> sidebar \<Rightarrow> stmt list" where
  "listener ShowCollapse s =
     (if show_once s then remove_once_listener # for_loop 0 5 resolve_video else [])"
| "listener ShownCollapse s =
     [at_lastVisibleVideo (\<lambda>i. set_currentTime i 0), at_lastVisibleVideo play]"
| "listener HiddenCollapse s = [at_lastVisibleVideo pause]"
| "listener (SlideCarousel to) s =
     [at_lastVisibleVideo pause, set_currentTime to 0, play to, assign_lastVisibleVideo to]"
| "listener ClickShow s = setVisibility_stmts True s"
| "listener ClickHide s = setVisibility_stmts False s"
| "listener (SettingsChanged v) s = setVisibility_stmts v s"
| "listener (FetchResolved v) s = setVisibility_stmts v s"

definition dispatch :: "event \<Rightarrow> sidebar \<Rightarrow> error option \<times> sidebar" where
  "dispatch ev s = run (listener ev s) s"

text \<open>A sequence of events: the final state, and every state passed on the way.\<close>

fun deliver :: "event list \<Rightarrow> sidebar \<Rightarrow> sidebar" where
  "deliver [] s = s"
| "deliver (ev # evs) s = deliver evs (snd (dispatch ev s))"

fun visited :: "event list \<Rightarrow> sidebar \<Rightarrow> sidebar list" where
  "visited [] s = [s]"
| "visited (ev # evs) s = s # states (listener ev s) s @ visited evs (snd (dispatch ev s))"

subsection \<open>The constructor\<close>

text \<open>
  \<open>loadContent\<close> renders the container; \<open>initVisibility\<close>, \<open>initIntroductionVideos\<close> and
  \<open>initButtons\<close> register the listeners, each on the result of a \<open>querySelector\<close>, which
  throws when the element is missing.
\<close>

definition listener_targets :: "string list" where
  "listener_targets =
     [''show-sidebar-button'', ''hide-sidebar-button'',
      ''sidebar-tab-introduction'', ''sidebar-tab-introduction-content'',
      ''dev-tools-button'', ''reload-menu-theme-button'']"

definition constructor ::
  "(string \<Rightarrow> classList option) \<Rightarrow> video list \<Rightarrow> (string \<times> bool) list \<Rightarrow> error + sidebar" where
  "constructor markup clips store =
     (if list_all (\<lambda>sel. markup sel \<noteq> None) listener_targets then
        Inr \<lparr>visible = True, videos = [], lastVisibleVideo = 0,
             elements = markup, slide_videos = clips,
             show_once = True, appSettings = store\<rparr>
      else Inl TypeError)"

subsection \<open>Observations on the playback of the clips\<close>

definition playing :: "sidebar \<Rightarrow> nat \<Rightarrow> bool" where
  "playing s r = (r < length (slide_videos s) \<and> \<not> paused (slide_videos s ! r))"

definition playing_clips :: "sidebar \<Rightarrow> nat list" where
  "playing_clips s = filter (playing s) [0..<length (slide_videos s)]"

definition at_most_one_playing :: "sidebar \<Rightarrow> bool" where
  "at_most_one_playing s = (length (playing_clips s) \<le> 1)"

text \<open>
  What the listeners maintain between events: a clip that plays is the one
  \<open>this.videos[this.lastVisibleVideo]\<close> refers to, and \<open>this.videos\<close> is empty as long
  as the \<open>once\<close> listener has not run.
\<close>

definition playback_inv :: "sidebar \<Rightarrow> bool" where
  "playback_inv s =
     (list_all (\<lambda>r. video_ref s (lastVisibleVideo s) = Some r) (playing_clips s) \<and>
      (show_once s \<longrightarrow> videos s = []))"

text \<open>The five handles are resolved and the \<open>once\<close> listener is gone.\<close>

definition clips_resolved :: "sidebar \<Rightarrow> bool" where
  "clips_resolved s =
     (\<not> show_once s \<and> list_all (\<lambda>i. video_ref s i \<noteq> None) [0..<5])"

text \<open>The index of the last \<open>slide.bs.carousel\<close> event of a sequence, \<open>i\<close> if there is none.\<close>

fun last_slide :: "event list \<Rightarrow> nat \<Rightarrow> nat" where
  "last_slide [] i = i"
| "last_slide (SlideCarousel k # evs) i = last_slide evs k"
| "last_slide (ev # evs) i = last_slide evs i"

fun slide_indices :: "event list \<Rightarrow> nat list" where
  "slide_indices [] = []"
| "slide_indices (SlideCarousel k # evs) = k # slide_indices evs"
| "slide_indices (ev # evs) = slide_indices evs"

text \<open>The three elements \<open>setVisibility\<close> toggles are present in the container.\<close>

definition toggles_present :: "sidebar \<Rightarrow> bool" where
  "toggles_present s =
     (elements s ''kando-editor-sidebar-area'' \<noteq> None \<and>
      elements s ''hide-sidebar-button'' \<noteq> None \<and>
      elements s ''show-sidebar-button'' \<noteq> None)"

text \<open>The toggles show the sidebar as open (\<open>v\<close>) or closed (\<open>\<not> v\<close>).\<close>

definition toggles_show :: "sidebar \<Rightarrow> bool \<Rightarrow> bool" where
  "toggles_show s v =
     ((has_class s ''kando-editor-sidebar-area'' ''visible'' = v) \<and>
      (has_class s ''hide-sidebar-button'' ''visible'' = v) \<and>
      (has_class s ''show-sidebar-button'' ''visible'' = (\<not> v)))"

subsection \<open>A rendered sidebar, for concrete runs\<close>

text \<open>
  The templates are not part of the source file. This markup is one rendering they may
  give: every element the constructor looks up is there, the sidebar is drawn open, and
  there are five clips, none of them loaded or playing.
\<close>

definition example_markup :: "string \<Rightarrow> classList option" where
  "example_markup =
     map_of
       [(''kando-editor-sidebar-area'', [''visible'']),
        (''hide-sidebar-button'', [''sidebar-button'', ''visible'']),
        (''show-sidebar-button'', [''sidebar-button'']),
        (''sidebar-tab-introduction'', [''collapse'']),
        (''sidebar-tab-introduction-content'', [''carousel'', ''slide'']),
        (''dev-tools-button'', []),
        (''reload-menu-theme-button'', [])]"

definition example_clip :: video where
  "example_clip = \<lparr>src = [], loop = False, currentTime = 0, paused = True\<rparr>"

definition example_clips :: "video list" where
  "example_clips = replicate 5 example_clip"

text \<open>The sidebar as constructed over this markup, with the given settings.\<close>

definition example_sidebar :: "(string \<times> bool) list \<Rightarrow> sidebar" where
  "example_sidebar store =
     \<lparr>visible = True, videos = [], lastVisibleVideo = 0,
      elements = example_markup, slide_videos = example_clips,
      show_once = True, appSettings = store\<rparr>"



text \<open>
  The same sidebar once the introduction tab is open: the five clips are resolved and
  clip 0, the current one, is seven time units into its playback.
\<close>

definition resolved_clip :: "nat \<Rightarrow> nat \<Rightarrow> bool \<Rightarrow> video" where
  "resolved_clip i t p = \<lparr>src = video_asset i, loop = True, currentTime = t, paused = p\<rparr>"

definition example_tab_open :: sidebar where
  "example_tab_open =
     \<lparr>visible = True, videos = [Some 0, Some 1, Some 2, Some 3, Some 4],
      lastVisibleVideo = 0, elements = example_markup,
      slide_videos =
        [resolved_clip 0 7 False, resolved_clip 1 0 True, resolved_clip 2 0 True,
         resolved_clip 3 0 True, resolved_clip 4 0 True],
      show_once = False, appSettings = []\<rparr>"

section \<open>The visibility of the sidebar\<close>



lemma in_classList_add: "x \<in> set (classList_add c cl) \<longleftrightarrow> x = c \<or> x \<in> set cl"
  by (auto simp add: classList_add_def)

lemma in_classList_remove: "x \<in> set (classList_remove c cl) \<longleftrightarrow> x \<noteq> c \<and> x \<in> set cl"
  by (auto simp add: classList_remove_def)

lemma setVisibility_same: "visible s = v \<Longrightarrow> setVisibility v s = (None, s)"
  by (simp add: setVisibility_def setVisibility_stmts_def)

lemma setVisibility_change:
  assumes "visible s \<noteq> v"
    and "elements s ''kando-editor-sidebar-area'' = Some a"
    and "elements s ''hide-sidebar-button'' = Some h"
    and "elements s ''show-sidebar-button'' = Some w"
  shows "setVisibility v s =
     (None, s\<lparr>elements := (elements s)
                (''kando-editor-sidebar-area'' \<mapsto>
                   (if v then classList_add ''visible'' a else classList_remove ''visible'' a),
                 ''hide-sidebar-button'' \<mapsto>
                   (if v then classList_add ''visible'' h else classList_remove ''visible'' h),
                 ''show-sidebar-button'' \<mapsto>
                   (if v then classList_remove ''visible'' w else classList_add ''visible'' w)),
              visible := v,
              appSettings := (''sidebarVisible'', v) # appSettings s\<rparr>)"
  using assms
  by (simp add: setVisibility_def setVisibility_stmts_def add_class_def remove_class_def
      assign_visible_def setKey_def)


lemma setVisibility_present:
  assumes "visible s \<noteq> v" and "toggles_present s"
  shows "fst (setVisibility v s) = None"
    and "visible (snd (setVisibility v s)) = v"
    and "appSettings (snd (setVisibility v s)) = (''sidebarVisible'', v) # appSettings s"
    and "toggles_show (snd (setVisibility v s)) v"
    and "videos (snd (setVisibility v s)) = videos s"
    and "slide_videos (snd (setVisibility v s)) = slide_videos s"
    and "lastVisibleVideo (snd (setVisibility v s)) = lastVisibleVideo s"
proof -
  from assms(2) obtain a h w where
    "elements s ''kando-editor-sidebar-area'' = Some a"
    "elements s ''hide-sidebar-button'' = Some h"
    "elements s ''show-sidebar-button'' = Some w"
    by (auto simp add: toggles_present_def)
  note eq = setVisibility_change [OF assms(1) this]
  show "fst (setVisibility v s) = None"
    and "visible (snd (setVisibility v s)) = v"
    and "appSettings (snd (setVisibility v s)) = (''sidebarVisible'', v) # appSettings s"
    and "videos (snd (setVisibility v s)) = videos s"
    and "slide_videos (snd (setVisibility v s)) = slide_videos s"
    and "lastVisibleVideo (snd (setVisibility v s)) = lastVisibleVideo s"
    by (simp_all add: eq)
  show "toggles_show (snd (setVisibility v s)) v"
    by (simp add: eq toggles_show_def has_class_def in_classList_add in_classList_remove)
qed


lemma example_toggles_present: "toggles_present (example_sidebar st)"
  by (simp add: toggles_present_def example_sidebar_def example_markup_def)


text \<open>
  Claim C4. When the requested value differs from the value in memory and the three
  toggled elements exist, \<open>setVisibility\<close> completes without exception; afterwards the
  sidebar area and the hide button carry the class \<open>visible\<close> exactly when the value is
  true, the show button exactly when it is false, the field \<open>visible\<close> holds the value,
  and the value has been written to the settings under \<open>sidebarVisible\<close>. The concrete
  run is Scenario B: the open sidebar is closed.
\<close>

theorem setVisibility_changes:
  assumes "visible s \<noteq> v" and "toggles_present s"
  shows "fst (setVisibility v s) = None \<and>
         has_class (snd (setVisibility v s)) ''kando-editor-sidebar-area'' ''visible'' = v \<and>
         has_class (snd (setVisibility v s)) ''hide-sidebar-button'' ''visible'' = v \<and>
         has_class (snd (setVisibility v s)) ''show-sidebar-button'' ''visible'' = (\<not> v) \<and>
         visible (snd (setVisibility v s)) = v \<and>
         appSettings (snd (setVisibility v s)) = (''sidebarVisible'', v) # appSettings s \<and>
         persisted (snd (setVisibility v s)) ''sidebarVisible'' = Some v"
  using setVisibility_present [OF assms]
  by (simp add: toggles_show_def persisted_def)

theorem setVisibility_changes_witness:
  "visible (example_sidebar []) \<noteq> False \<and> toggles_present (example_sidebar []) \<and>
   has_class (example_sidebar []) ''kando-editor-sidebar-area'' ''visible'' \<and>
   has_class (example_sidebar []) ''hide-sidebar-button'' ''visible'' \<and>
   \<not> has_class (example_sidebar []) ''show-sidebar-button'' ''visible'' \<and>
   fst (setVisibility False (example_sidebar [])) = None \<and>
   \<not> has_class (snd (setVisibility False (example_sidebar []))) ''kando-editor-sidebar-area'' ''visible'' \<and>
   \<not> has_class (snd (setVisibility False (example_sidebar []))) ''hide-sidebar-button'' ''visible'' \<and>
   has_class (snd (setVisibility False (example_sidebar []))) ''show-sidebar-button'' ''visible'' \<and>
   persisted (snd (setVisibility False (example_sidebar []))) ''sidebarVisible'' = Some False"
  using setVisibility_changes [of "example_sidebar []" False]
    example_toggles_present [of "[]"]
  by (simp add: example_sidebar_def has_class_def example_markup_def)

text \<open>
  Claim C5, as amended. After \<open>setVisibility v\<close> the persisted \<open>sidebarVisible\<close> is
  \<open>v\<close> provided the call is a change, or the persisted value agreed with the value in
  memory before the call. Without that proviso the round trip fails: a sidebar is
  constructed with \<open>visible = true\<close> whatever the settings hold, so over settings that
  hold \<open>false\<close> the call \<open>setVisibility(true)\<close> made before the initial fetch resolves
  writes nothing and the persisted value stays \<open>false\<close>.
\<close>

theorem setVisibility_round_trip:
  assumes "toggles_present s"
    and "visible s \<noteq> v \<or> persisted s ''sidebarVisible'' = Some (visible s)"
  shows "fst (setVisibility v s) = None \<and>
         persisted (snd (setVisibility v s)) ''sidebarVisible'' = Some v \<and>
         visible (snd (setVisibility v s)) = v"
proof (cases "visible s = v")
  case True
  with assms(2) show ?thesis by (simp add: setVisibility_same)
next
  case False
  from setVisibility_present [OF False assms(1)] show ?thesis
    by (simp add: persisted_def)
qed

theorem setVisibility_round_trip_witness:
  "toggles_present (example_sidebar [(''sidebarVisible'', True)]) \<and>
   visible (example_sidebar [(''sidebarVisible'', True)]) \<noteq> False \<and>
   persisted (example_sidebar [(''sidebarVisible'', True)]) ''sidebarVisible'' =
     Some (visible (example_sidebar [(''sidebarVisible'', True)])) \<and>
   persisted (snd (setVisibility False (example_sidebar [(''sidebarVisible'', True)])))
     ''sidebarVisible'' = Some False \<and>
   persisted (snd (setVisibility True (example_sidebar [(''sidebarVisible'', True)])))
     ''sidebarVisible'' = Some True"
  using setVisibility_round_trip [of "example_sidebar [(''sidebarVisible'', True)]" False]
    setVisibility_round_trip [of "example_sidebar [(''sidebarVisible'', True)]" True]
    example_toggles_present [of "[(''sidebarVisible'', True)]"]
  by (simp add: example_sidebar_def persisted_def)

theorem setVisibility_round_trip_counterexample:
  "constructor example_markup example_clips [(''sidebarVisible'', False)] =
     Inr (example_sidebar [(''sidebarVisible'', False)]) \<and>
   setVisibility True (example_sidebar [(''sidebarVisible'', False)]) =
     (None, example_sidebar [(''sidebarVisible'', False)]) \<and>
   persisted (snd (setVisibility True (example_sidebar [(''sidebarVisible'', False)])))
     ''sidebarVisible'' = Some False \<and>
   getKey (appSettings (snd (setVisibility True (example_sidebar [(''sidebarVisible'', False)]))))
     ''sidebarVisible'' = False"
  by (simp add: constructor_def listener_targets_def example_markup_def example_sidebar_def
      setVisibility_def setVisibility_stmts_def persisted_def getKey_def)




section \<open>The playback of the introduction videos\<close>

subsection \<open>Running statements\<close>

lemma in_states_Cons:
  "t \<in> set (states (c # cs) s) \<longleftrightarrow> (\<exists>s'. c s = Inr s' \<and> (t = s' \<or> t \<in> set (states cs s')))"
  by (cases "c s") auto

lemma snd_run_in_states: "snd (run cs s) = s \<or> snd (run cs s) \<in> set (states cs s)"
proof (induction cs arbitrary: s)
  case Nil
  show ?case by simp
next
  case (Cons c cs)
  show ?case
  proof (cases "c s")
    case (Inl e)
    then show ?thesis by simp
  next
    case (Inr s')
    with Cons [of s'] show ?thesis by auto
  qed
qed

lemma states_preserve:
  assumes "\<And>c s s'. c \<in> set cs \<Longrightarrow> Q s \<Longrightarrow> c s = Inr s' \<Longrightarrow> Q s'"
    and "Q s" and "t \<in> set (states cs s)"
  shows "Q t"
  using assms
proof (induction cs arbitrary: s)
  case Nil
  then show ?case by simp
next
  case (Cons c cs)
  from Cons.prems(3) obtain s' where s': "c s = Inr s'"
    and t: "t = s' \<or> t \<in> set (states cs s')"
    unfolding in_states_Cons by blast
  from Cons.prems(1) [of c s s'] Cons.prems(2) s' have q: "Q s'" by simp
  show ?case
  proof (cases "t = s'")
    case True
    with q show ?thesis by simp
  next
    case False
    with t have tin: "t \<in> set (states cs s')" by simp
    have "Q u'" if "d \<in> set cs" and "Q u" and "d u = Inr u'" for d u u'
      using Cons.prems(1) [of d u u'] that by simp
    from Cons.IH [OF this q tin] show ?thesis .
  qed
qed

lemma run_preserve:
  assumes "\<And>c s s'. c \<in> set cs \<Longrightarrow> Q s \<Longrightarrow> c s = Inr s' \<Longrightarrow> Q s'"
    and "Q s"
  shows "Q (snd (run cs s))"
  using snd_run_in_states [of cs s] states_preserve [of cs Q s "snd (run cs s)"] assms
  by auto

subsection \<open>Which clips play\<close>

lemma set_playing_clips: "set (playing_clips s) = {r. playing s r}"
  by (auto simp add: playing_clips_def playing_def)

lemma distinct_playing_clips: "distinct (playing_clips s)"
  by (simp add: playing_clips_def)

lemma length_le_1_iff:
  assumes "distinct xs"
  shows "length xs \<le> 1 \<longleftrightarrow> (\<forall>a \<in> set xs. \<forall>b \<in> set xs. a = b)"
proof (cases xs)
  case Nil
  then show ?thesis by simp
next
  case (Cons x ys)
  show ?thesis
  proof (cases ys)
    case Nil
    with Cons show ?thesis by simp
  next
    case (Cons y zs)
    with \<open>xs = x # ys\<close> assms have "x \<noteq> y" by auto
    with Cons \<open>xs = x # ys\<close> show ?thesis by auto
  qed
qed

lemma at_most_one_playing_iff:
  "at_most_one_playing s \<longleftrightarrow> (\<forall>a b. playing s a \<and> playing s b \<longrightarrow> a = b)"
  unfolding at_most_one_playing_def
  using length_le_1_iff [OF distinct_playing_clips, of s]
  by (auto simp add: set_playing_clips)

lemma at_most_one_playingI:
  assumes "\<And>a. playing t a \<Longrightarrow> a = c"
  shows "at_most_one_playing t"
  unfolding at_most_one_playing_iff
proof (intro allI impI)
  fix a b
  assume "playing t a \<and> playing t b"
  then have "a = c" and "b = c" using assms by blast+
  then show "a = b" by simp
qed

lemma playing_clips_eq_Nil: "playing_clips s = [] \<longleftrightarrow> (\<forall>r. \<not> playing s r)"
proof -
  have "playing_clips s = [] \<longleftrightarrow> set (playing_clips s) = {}" by simp
  also have "\<dots> \<longleftrightarrow> (\<forall>r. \<not> playing s r)" by (simp add: set_playing_clips)
  finally show ?thesis .
qed

lemma playback_inv_iff:
  "playback_inv s \<longleftrightarrow>
     (\<forall>r. playing s r \<longrightarrow> video_ref s (lastVisibleVideo s) = Some r) \<and>
     (show_once s \<longrightarrow> videos s = [])"
  by (simp add: playback_inv_def list_all_iff set_playing_clips)

lemma playback_inv_current:
  "playback_inv s \<Longrightarrow> playing s a \<Longrightarrow> video_ref s (lastVisibleVideo s) = Some a"
  by (simp add: playback_inv_iff)

lemma playback_inv_once: "playback_inv s \<Longrightarrow> show_once s \<Longrightarrow> videos s = []"
  by (simp add: playback_inv_iff)

lemma playback_invI:
  assumes "\<And>a. playing s a \<Longrightarrow> video_ref s (lastVisibleVideo s) = Some a"
    and "show_once s \<Longrightarrow> videos s = []"
  shows "playback_inv s"
  using assms by (simp add: playback_inv_iff)

lemma playback_inv_at_most_one:
  assumes "playback_inv s"
  shows "at_most_one_playing s"
proof (cases "video_ref s (lastVisibleVideo s)")
  case None
  have "a = 0" if "playing s a" for a
    using playback_inv_current [OF assms that] None by simp
  then show ?thesis by (rule at_most_one_playingI)
next
  case (Some c)
  have "a = c" if "playing s a" for a
    using playback_inv_current [OF assms that] Some by simp
  then show ?thesis by (rule at_most_one_playingI)
qed

lemma video_ref_less: "video_ref s i = Some r \<Longrightarrow> r < length (slide_videos s)"
  by (auto simp add: video_ref_def split: option.splits if_splits)

lemma video_ref_empty: "videos s = [] \<Longrightarrow> video_ref s i = None"
  by (simp add: video_ref_def js_get_def)

lemma video_ref_cong:
  assumes "length (slide_videos s') = length (slide_videos s)" and "videos s' = videos s"
  shows "video_ref s' = video_ref s"
  using assms by (simp add: video_ref_def fun_eq_iff split: option.splits)

lemma playback_inv_cong:
  assumes "slide_videos s' = slide_videos s" and "videos s' = videos s"
    and "lastVisibleVideo s' = lastVisibleVideo s" and "show_once s' = show_once s"
  shows "playback_inv s' = playback_inv s"
proof -
  have "playing s' = playing s"
    by (simp add: fun_eq_iff playing_def assms)
  moreover have "video_ref s' = video_ref s"
    by (rule video_ref_cong) (simp_all add: assms)
  ultimately show ?thesis
    by (simp add: playback_inv_def playing_clips_def assms)
qed

subsection \<open>The effect of the statements\<close>

lemma video_update_simps [simp]:
  "videos (video_update r f s) = videos s"
  "lastVisibleVideo (video_update r f s) = lastVisibleVideo s"
  "show_once (video_update r f s) = show_once s"
  "visible (video_update r f s) = visible s"
  "elements (video_update r f s) = elements s"
  "appSettings (video_update r f s) = appSettings s"
  "length (slide_videos (video_update r f s)) = length (slide_videos s)"
  by (simp_all add: video_update_def)

lemma video_ref_video_update [simp]: "video_ref (video_update r f s) = video_ref s"
  by (rule video_ref_cong) simp_all

lemma playing_video_update:
  assumes "r < length (slide_videos s)"
  shows "playing (video_update r f s) a =
     (if a = r then \<not> paused (f (slide_videos s ! r)) else playing s a)"
  using assms by (simp add: playing_def video_update_def)

lemma on_video_Inr:
  assumes "on_video i f s = Inr s'"
  obtains r where "video_ref s i = Some r" and "r < length (slide_videos s)"
    and "s' = video_update r f s"
proof -
  from assms obtain r where r: "video_ref s i = Some r" and s': "s' = video_update r f s"
    by (auto simp add: on_video_def split: option.splits)
  from r have "r < length (slide_videos s)" by (rule video_ref_less)
  with r s' that show thesis by blast
qed

lemma on_video_None: "video_ref s i = None \<Longrightarrow> on_video i f s = Inl TypeError"
  by (simp add: on_video_def)

lemma on_video_Some: "video_ref s i = Some r \<Longrightarrow> on_video i f s = Inr (video_update r f s)"
  by (simp add: on_video_def)

lemma on_video_frame:
  assumes "on_video i f s = Inr s'"
  shows "videos s' = videos s \<and> lastVisibleVideo s' = lastVisibleVideo s \<and>
         show_once s' = show_once s \<and> video_ref s' = video_ref s"
  using assms by (elim on_video_Inr) simp

lemma on_video_keeps_paused:
  assumes "on_video i f s = Inr s'" and "\<And>v. paused (f v) = paused v"
  shows "playing s' = playing s"
  using assms(1)
proof (elim on_video_Inr)
  fix r
  assume "r < length (slide_videos s)" and "s' = video_update r f s"
  then show ?thesis
    by (simp add: fun_eq_iff playing_video_update assms(2)) (simp add: playing_def)
qed

lemma pause_effect:
  assumes "pause i s = Inr s'"
  shows "\<exists>r. video_ref s i = Some r \<and> (\<forall>a. playing s' a \<longleftrightarrow> a \<noteq> r \<and> playing s a)"
proof -
  from assms have "on_video i (\<lambda>v. v\<lparr>paused := True\<rparr>) s = Inr s'"
    by (simp add: pause_def)
  then show ?thesis
  proof (elim on_video_Inr)
    fix r
    assume r: "video_ref s i = Some r" "r < length (slide_videos s)"
      and "s' = video_update r (\<lambda>v. v\<lparr>paused := True\<rparr>) s"
    then have "\<forall>a. playing s' a \<longleftrightarrow> a \<noteq> r \<and> playing s a"
      by (simp add: playing_video_update)
    with r show ?thesis by blast
  qed
qed

lemma play_effect:
  assumes "play i s = Inr s'"
  shows "\<exists>r. video_ref s i = Some r \<and> (\<forall>a. playing s' a \<longleftrightarrow> a = r \<or> playing s a)"
proof -
  from assms have "on_video i (\<lambda>v. v\<lparr>paused := False\<rparr>) s = Inr s'"
    by (simp add: play_def)
  then show ?thesis
  proof (elim on_video_Inr)
    fix r
    assume r: "video_ref s i = Some r" "r < length (slide_videos s)"
      and "s' = video_update r (\<lambda>v. v\<lparr>paused := False\<rparr>) s"
    then have "\<forall>a. playing s' a \<longleftrightarrow> a = r \<or> playing s a"
      by (simp add: playing_video_update)
    with r show ?thesis by blast
  qed
qed

lemma pause_frame:
  assumes "pause i s = Inr s'"
  shows "videos s' = videos s \<and> lastVisibleVideo s' = lastVisibleVideo s \<and>
         show_once s' = show_once s \<and> video_ref s' = video_ref s"
  using assms unfolding pause_def by (rule on_video_frame)

lemma play_frame:
  assumes "play i s = Inr s'"
  shows "videos s' = videos s \<and> lastVisibleVideo s' = lastVisibleVideo s \<and>
         show_once s' = show_once s \<and> video_ref s' = video_ref s"
  using assms unfolding play_def by (rule on_video_frame)

lemma set_currentTime_frame:
  assumes "set_currentTime i t s = Inr s'"
  shows "videos s' = videos s \<and> lastVisibleVideo s' = lastVisibleVideo s \<and>
         show_once s' = show_once s \<and> video_ref s' = video_ref s"
  using assms unfolding set_currentTime_def by (rule on_video_frame)

lemma set_currentTime_playing:
  assumes "set_currentTime i t s = Inr s'"
  shows "playing s' = playing s"
  using assms unfolding set_currentTime_def by (rule on_video_keeps_paused) simp

lemma set_src_playing:
  assumes "set_src i u s = Inr s'"
  shows "playing s' = playing s"
  using assms unfolding set_src_def by (rule on_video_keeps_paused) simp

lemma set_loop_playing:
  assumes "set_loop i b s = Inr s'"
  shows "playing s' = playing s"
  using assms unfolding set_loop_def by (rule on_video_keeps_paused) simp

lemma assign_video_playing:
  assumes "assign_video i s = Inr s'"
  shows "playing s' = playing s \<and> show_once s' = show_once s"
  using assms by (auto simp add: assign_video_def playing_def fun_eq_iff)

subsection \<open>Every listener keeps the playback exclusive\<close>

lemma none_playing_inv:
  assumes "\<And>a. \<not> playing s a" and "show_once s \<Longrightarrow> videos s = []"
  shows "playback_inv s"
  using assms by (simp add: playback_inv_iff)

lemma pause_current_inv:
  assumes inv: "playback_inv s" and c: "pause (lastVisibleVideo s) s = Inr s1"
  shows "\<not> playing s1 a" and "playback_inv s1"
proof -
  from pause_effect [OF c] obtain r where r: "video_ref s (lastVisibleVideo s) = Some r"
    and p: "\<And>a. playing s1 a \<longleftrightarrow> a \<noteq> r \<and> playing s a"
    by blast
  show n: "\<not> playing s1 a" for a
  proof
    assume "playing s1 a"
    with p have "a \<noteq> r" and "playing s a" by simp_all
    with playback_inv_current [OF inv] r show False by simp
  qed
  from pause_frame [OF c] playback_inv_once [OF inv] have "show_once s1 \<Longrightarrow> videos s1 = []"
    by simp
  with n show "playback_inv s1" by (rule none_playing_inv)
qed

lemma play_current_inv:
  assumes inv: "playback_inv s" and c: "play (lastVisibleVideo s) s = Inr s1"
  shows "playback_inv s1"
proof (rule playback_invI)
  from play_effect [OF c] obtain r where r: "video_ref s (lastVisibleVideo s) = Some r"
    and p: "\<And>a. playing s1 a \<longleftrightarrow> a = r \<or> playing s a"
    by blast
  note f = play_frame [OF c]
  fix a assume "playing s1 a"
  with p have "a = r \<or> playing s a" by simp
  with r playback_inv_current [OF inv] have "video_ref s (lastVisibleVideo s) = Some a"
    by auto
  with f show "video_ref s1 (lastVisibleVideo s1) = Some a" by simp
next
  assume "show_once s1"
  with play_frame [OF c] playback_inv_once [OF inv] show "videos s1 = []" by simp
qed

lemma set_currentTime_inv:
  assumes inv: "playback_inv s" and c: "set_currentTime i t s = Inr s1"
  shows "playback_inv s1"
  using inv set_currentTime_frame [OF c] set_currentTime_playing [OF c]
  by (simp add: playback_inv_iff)

lemma shown_states:
  assumes "playback_inv s" and "t \<in> set (states (listener ShownCollapse s) s)"
  shows "playback_inv t"
proof (rule states_preserve [of "listener ShownCollapse s" playback_inv s t])
  show "playback_inv s" by (rule assms(1))
  show "t \<in> set (states (listener ShownCollapse s) s)" by (rule assms(2))
next
  fix c u u'
  assume c: "c \<in> set (listener ShownCollapse s)" and u: "playback_inv u" and r: "c u = Inr u'"
  from c consider "c = at_lastVisibleVideo (\<lambda>i. set_currentTime i 0)" | "c = at_lastVisibleVideo play"
    by auto
  then show "playback_inv u'"
  proof cases
    case 1
    with r have "set_currentTime (lastVisibleVideo u) 0 u = Inr u'"
      by (simp add: at_lastVisibleVideo_def)
    from set_currentTime_inv [OF u this] show ?thesis .
  next
    case 2
    with r have "play (lastVisibleVideo u) u = Inr u'"
      by (simp add: at_lastVisibleVideo_def)
    from play_current_inv [OF u this] show ?thesis .
  qed
qed

lemma hidden_states:
  assumes "playback_inv s" and "t \<in> set (states (listener HiddenCollapse s) s)"
  shows "playback_inv t"
proof (rule states_preserve [of "listener HiddenCollapse s" playback_inv s t])
  show "playback_inv s" by (rule assms(1))
  show "t \<in> set (states (listener HiddenCollapse s) s)" by (rule assms(2))
next
  fix c u u'
  assume c: "c \<in> set (listener HiddenCollapse s)" and u: "playback_inv u" and r: "c u = Inr u'"
  from c r have "pause (lastVisibleVideo u) u = Inr u'"
    by (simp add: at_lastVisibleVideo_def)
  from pause_current_inv(2) [OF u this] show "playback_inv u'" .
qed

text \<open>The statements of \<open>setVisibility\<close> leave the videos alone.\<close>

lemma setVisibility_stmts_cases:
  assumes "c \<in> set (setVisibility_stmts v s)"
  obtains sel cls where "c = add_class sel cls"
  | sel cls where "c = remove_class sel cls"
  | "c = assign_visible v"
  | "c = setKey ''sidebarVisible'' v"
  using assms by (auto simp add: setVisibility_stmts_def split: if_splits)

lemma setVisibility_stmts_frame:
  assumes "c \<in> set (setVisibility_stmts v s)" and "c u = Inr u'"
  shows "slide_videos u' = slide_videos u \<and> videos u' = videos u \<and>
         lastVisibleVideo u' = lastVisibleVideo u \<and> show_once u' = show_once u"
  using assms(1)
proof (cases rule: setVisibility_stmts_cases)
  case (1 sel cls)
  with assms(2) show ?thesis by (auto simp add: add_class_def split: option.splits)
next
  case (2 sel cls)
  with assms(2) show ?thesis by (auto simp add: remove_class_def split: option.splits)
next
  case 3
  with assms(2) show ?thesis by (auto simp add: assign_visible_def)
next
  case 4
  with assms(2) show ?thesis by (auto simp add: setKey_def)
qed

lemma setVisibility_states:
  assumes "playback_inv s" and "t \<in> set (states (setVisibility_stmts v s) s)"
  shows "playback_inv t"
proof (rule states_preserve [of "setVisibility_stmts v s" playback_inv s t])
  show "playback_inv s" by (rule assms(1))
  show "t \<in> set (states (setVisibility_stmts v s) s)" by (rule assms(2))
next
  fix c u u'
  assume "c \<in> set (setVisibility_stmts v s)" and "playback_inv u" and "c u = Inr u'"
  with setVisibility_stmts_frame [of c v s u u'] playback_inv_cong [of u' u]
  show "playback_inv u'" by simp
qed

text \<open>The \<open>once\<close> listener starts no clip.\<close>

lemma for_loop_resolve_cases:
  assumes "c \<in> set (for_loop i n resolve_video)"
  shows "(\<exists>j. c = assign_video j) \<or> (\<exists>j u. c = set_src j u) \<or> (\<exists>j b. c = set_loop j b)"
  using assms
  by (induction n arbitrary: i) (auto simp add: resolve_video_def)

lemma show_states:
  assumes inv: "playback_inv s" and t: "t \<in> set (states (listener ShowCollapse s) s)"
  shows "(\<forall>a. \<not> playing t a) \<and> \<not> show_once t"
proof (cases "show_once s")
  case False
  with t show ?thesis by simp
next
  case True
  let ?Q = "\<lambda>u. (\<forall>a. \<not> playing u a) \<and> \<not> show_once u"
  from True playback_inv_once [OF inv] have "videos s = []" by simp
  then have "video_ref s (lastVisibleVideo s) = None" by (rule video_ref_empty)
  with playback_inv_current [OF inv] have n: "\<forall>a. \<not> playing s a" by fastforce
  have pres: "?Q u'" if "c \<in> set (for_loop 0 5 resolve_video)" and "?Q u" and "c u = Inr u'"
    for c u u'
  proof -
    from for_loop_resolve_cases [OF that(1)] consider
      j where "c = assign_video j" | j w where "c = set_src j w" | j b where "c = set_loop j b"
      by blast
    then show ?thesis
    proof cases
      case 1
      with that(2,3) assign_video_playing [of j u u'] show ?thesis by simp
    next
      case 2
      with that(3) have "set_src j w u = Inr u'" by simp
      from set_src_playing [OF this] on_video_frame [OF this [unfolded set_src_def]] that(2)
      show ?thesis by simp
    next
      case 3
      with that(3) have "set_loop j b u = Inr u'" by simp
      from set_loop_playing [OF this] on_video_frame [OF this [unfolded set_loop_def]] that(2)
      show ?thesis by simp
    qed
  qed
  let ?s0 = "s\<lparr>show_once := False\<rparr>"
  from n have q0: "?Q ?s0" by (simp add: playing_def)
  from True t have "t = ?s0 \<or> t \<in> set (states (for_loop 0 5 resolve_video) ?s0)"
    by (simp add: remove_once_listener_def)
  then show ?thesis
  proof
    assume "t = ?s0"
    with q0 show ?thesis by simp
  next
    assume "t \<in> set (states (for_loop 0 5 resolve_video) ?s0)"
    from states_preserve [of "for_loop 0 5 resolve_video" ?Q, OF pres q0 this]
    show ?thesis .
  qed
qed

text \<open>The listener of a slide: the four statements in turn.\<close>

lemma slide_chain:
  assumes inv: "playback_inv s" and c1: "pause (lastVisibleVideo s) s = Inr s1"
  shows "playback_inv s1"
    and "set_currentTime k 0 s1 = Inr s2 \<Longrightarrow> playback_inv s2 \<and> (\<forall>a. \<not> playing s2 a)"
    and "set_currentTime k 0 s1 = Inr s2 \<Longrightarrow> play k s2 = Inr s3 \<Longrightarrow>
           at_most_one_playing s3 \<and>
           playback_inv (s3\<lparr>lastVisibleVideo := k\<rparr>)"
proof -
  note n1 = pause_current_inv [OF inv c1]
  show i1: "playback_inv s1" by (rule n1(2))
  {
    assume c2: "set_currentTime k 0 s1 = Inr s2"
    from n1(1) set_currentTime_playing [OF c2] have n2: "\<forall>a. \<not> playing s2 a" by simp
    from set_currentTime_inv [OF i1 c2] have i2: "playback_inv s2" .
    from i2 n2 show "playback_inv s2 \<and> (\<forall>a. \<not> playing s2 a)" by simp
    assume c3: "play k s2 = Inr s3"
    from play_effect [OF c3] obtain r where r: "video_ref s2 k = Some r"
      and p: "\<And>a. playing s3 a \<longleftrightarrow> a = r \<or> playing s2 a"
      by blast
    note f = play_frame [OF c3]
    from p n2 have only: "\<And>a. playing s3 a \<Longrightarrow> a = r" by simp
    then have "at_most_one_playing s3" by (rule at_most_one_playingI)
    moreover have "playback_inv (s3\<lparr>lastVisibleVideo := k\<rparr>)"
    proof (rule playback_invI)
      fix a assume "playing (s3\<lparr>lastVisibleVideo := k\<rparr>) a"
      then have "playing s3 a" by (simp add: playing_def)
      with only have "a = r" by simp
      moreover have "video_ref (s3\<lparr>lastVisibleVideo := k\<rparr>) = video_ref s3"
        by (rule video_ref_cong) simp_all
      ultimately show "video_ref (s3\<lparr>lastVisibleVideo := k\<rparr>)
          (lastVisibleVideo (s3\<lparr>lastVisibleVideo := k\<rparr>)) = Some a"
        using r f by simp
    next
      assume "show_once (s3\<lparr>lastVisibleVideo := k\<rparr>)"
      with f playback_inv_once [OF i2] show "videos (s3\<lparr>lastVisibleVideo := k\<rparr>) = []"
        by simp
    qed
    ultimately show "at_most_one_playing s3 \<and> playback_inv (s3\<lparr>lastVisibleVideo := k\<rparr>)"
      by simp
  }
qed

lemma slide_states:
  assumes inv: "playback_inv s" and t: "t \<in> set (states (listener (SlideCarousel k) s) s)"
  shows "at_most_one_playing t"
proof -
  from t obtain s1 where c1: "pause (lastVisibleVideo s) s = Inr s1"
    and t1: "t = s1 \<or> (\<exists>s2. set_currentTime k 0 s1 = Inr s2 \<and> (t = s2 \<or>
         (\<exists>s3. play k s2 = Inr s3 \<and> (t = s3 \<or> t = s3\<lparr>lastVisibleVideo := k\<rparr>))))"
    unfolding listener.simps in_states_Cons at_lastVisibleVideo_def assign_lastVisibleVideo_def
    by auto
  note ch = slide_chain [OF inv c1]
  from t1 consider "t = s1"
    | s2 where "set_currentTime k 0 s1 = Inr s2" "t = s2"
    | s2 s3 where "set_currentTime k 0 s1 = Inr s2" "play k s2 = Inr s3" "t = s3"
    | s2 s3 where "set_currentTime k 0 s1 = Inr s2" "play k s2 = Inr s3"
        "t = s3\<lparr>lastVisibleVideo := k\<rparr>"
    by blast
  then show ?thesis
  proof cases
    case 1
    with ch(1) show ?thesis by (simp add: playback_inv_at_most_one)
  next
    case 2
    with ch(2) [of k s2] show ?thesis by (simp add: playback_inv_at_most_one)
  next
    case 3
    with ch(3) [of k s2 s3] show ?thesis by simp
  next
    case 4
    with ch(3) [of k s2 s3] show ?thesis by (simp add: playback_inv_at_most_one)
  qed
qed

lemma slide_inv:
  assumes inv: "playback_inv s"
  shows "playback_inv (snd (dispatch (SlideCarousel k) s))"
proof (cases "pause (lastVisibleVideo s) s")
  case (Inl e)
  with inv show ?thesis by (simp add: dispatch_def at_lastVisibleVideo_def)
next
  case (Inr s1)
  note ch = slide_chain [OF inv Inr]
  show ?thesis
  proof (cases "set_currentTime k 0 s1")
    case (Inl e)
    with Inr ch(1) show ?thesis by (simp add: dispatch_def at_lastVisibleVideo_def)
  next
    case c2: (Inr s2)
    show ?thesis
    proof (cases "play k s2")
      case (Inl e)
      with Inr c2 ch(2) [of k s2] show ?thesis
        by (simp add: dispatch_def at_lastVisibleVideo_def)
    next
      case c3: (Inr s3)
      with Inr c2 ch(3) [of k s2 s3] show ?thesis
        by (simp add: dispatch_def at_lastVisibleVideo_def assign_lastVisibleVideo_def)
    qed
  qed
qed

lemma listener_states_inv:
  assumes inv: "playback_inv s" and t: "t \<in> set (states (listener ev s) s)"
    and ev: "\<And>k. ev \<noteq> SlideCarousel k"
  shows "playback_inv t"
proof (cases ev)
  case ShowCollapse
  with t have "t \<in> set (states (listener ShowCollapse s) s)" by simp
  from show_states [OF inv this] have "\<And>a. \<not> playing t a" and "\<not> show_once t" by simp_all
  then show ?thesis by (intro none_playing_inv) simp_all
next
  case ShownCollapse
  with t have "t \<in> set (states (listener ShownCollapse s) s)" by simp
  from shown_states [OF inv this] show ?thesis .
next
  case HiddenCollapse
  with t have "t \<in> set (states (listener HiddenCollapse s) s)" by simp
  from hidden_states [OF inv this] show ?thesis .
next
  case (SlideCarousel k)
  with ev [of k] show ?thesis by simp
next
  case ClickShow
  with t have "t \<in> set (states (setVisibility_stmts True s) s)" by simp
  from setVisibility_states [OF inv this] show ?thesis .
next
  case ClickHide
  with t have "t \<in> set (states (setVisibility_stmts False s) s)" by simp
  from setVisibility_states [OF inv this] show ?thesis .
next
  case (SettingsChanged v)
  with t have "t \<in> set (states (setVisibility_stmts v s) s)" by simp
  from setVisibility_states [OF inv this] show ?thesis .
next
  case (FetchResolved v)
  with t have "t \<in> set (states (setVisibility_stmts v s) s)" by simp
  from setVisibility_states [OF inv this] show ?thesis .
qed

lemma listener_states_exclusive:
  assumes "playback_inv s" and "t \<in> set (states (listener ev s) s)"
  shows "at_most_one_playing t"
proof (cases "\<exists>k. ev = SlideCarousel k")
  case True
  then obtain k where "ev = SlideCarousel k" by blast
  with slide_states [OF assms(1), of t k] assms(2) show ?thesis by simp
next
  case False
  then have "\<And>k. ev \<noteq> SlideCarousel k" by blast
  from listener_states_inv [OF assms this] show ?thesis
    by (rule playback_inv_at_most_one)
qed

lemma dispatch_inv:
  assumes inv: "playback_inv s"
  shows "playback_inv (snd (dispatch ev s))"
proof (cases "\<exists>k. ev = SlideCarousel k")
  case True
  then obtain k where "ev = SlideCarousel k" by blast
  with slide_inv [OF inv, of k] show ?thesis by simp
next
  case False
  from snd_run_in_states [of "listener ev s" s]
  have "snd (dispatch ev s) = s \<or> snd (dispatch ev s) \<in> set (states (listener ev s) s)"
    by (simp add: dispatch_def)
  then show ?thesis
  proof
    assume "snd (dispatch ev s) = s"
    with inv show ?thesis by simp
  next
    assume "snd (dispatch ev s) \<in> set (states (listener ev s) s)"
    from listener_states_inv [OF inv this] False show ?thesis by blast
  qed
qed

lemma visited_exclusive:
  assumes "playback_inv s"
  shows "list_all at_most_one_playing (visited evs s) \<and> playback_inv (deliver evs s)"
  using assms
proof (induction evs arbitrary: s)
  case Nil
  then show ?case by (simp add: playback_inv_at_most_one)
next
  case (Cons ev evs)
  from Cons.IH [OF dispatch_inv [OF Cons.prems, of ev]] listener_states_exclusive [OF Cons.prems, of _ ev]
    playback_inv_at_most_one [OF Cons.prems]
  show ?case by (auto simp add: list_all_iff)
qed

lemma constructor_inv:
  assumes "constructor markup clips store = Inr s" and "list_all paused clips"
  shows "playback_inv s"
proof (rule none_playing_inv)
  from assms(1) have s: "slide_videos s = clips" "videos s = []"
    by (auto simp add: constructor_def split: if_splits)
  from s(2) show "videos s = []" .
  fix a
  from assms(2) s(1) show "\<not> playing s a"
    by (auto simp add: playing_def list_all_length)
qed

subsection \<open>What each playback listener computes\<close>

lemma nth_video_update:
  "slide_videos (video_update r f s) ! j =
     (if j = r \<and> r < length (slide_videos s) then f (slide_videos s ! r) else slide_videos s ! j)"
  by (cases "r < length (slide_videos s)") (auto simp add: video_update_def list_update_beyond)

lemma shown_run:
  assumes "video_ref s (lastVisibleVideo s) = Some r"
  shows "states (listener ShownCollapse s) s =
           [video_update r (\<lambda>v. v\<lparr>currentTime := 0\<rparr>) s,
            video_update r (\<lambda>v. v\<lparr>paused := False\<rparr>)
              (video_update r (\<lambda>v. v\<lparr>currentTime := 0\<rparr>) s)]"
    and "dispatch ShownCollapse s =
           (None, video_update r (\<lambda>v. v\<lparr>paused := False\<rparr>)
              (video_update r (\<lambda>v. v\<lparr>currentTime := 0\<rparr>) s))"
  using assms
  by (simp_all add: dispatch_def at_lastVisibleVideo_def set_currentTime_def play_def on_video_def)

lemma hidden_run:
  assumes "video_ref s (lastVisibleVideo s) = Some r"
  shows "states (listener HiddenCollapse s) s = [video_update r (\<lambda>v. v\<lparr>paused := True\<rparr>) s]"
    and "dispatch HiddenCollapse s = (None, video_update r (\<lambda>v. v\<lparr>paused := True\<rparr>) s)"
  using assms
  by (simp_all add: dispatch_def at_lastVisibleVideo_def pause_def on_video_def)

lemma hidden_unresolved:
  assumes "video_ref s (lastVisibleVideo s) = None"
  shows "dispatch HiddenCollapse s = (Some TypeError, s)"
  using assms
  by (simp add: dispatch_def at_lastVisibleVideo_def pause_def on_video_def)

lemma slide_run:
  assumes "video_ref s (lastVisibleVideo s) = Some i" and "video_ref s k = Some r"
  shows "states (listener (SlideCarousel k) s) s =
           [video_update i (\<lambda>v. v\<lparr>paused := True\<rparr>) s,
            video_update r (\<lambda>v. v\<lparr>currentTime := 0\<rparr>)
              (video_update i (\<lambda>v. v\<lparr>paused := True\<rparr>) s),
            video_update r (\<lambda>v. v\<lparr>paused := False\<rparr>)
              (video_update r (\<lambda>v. v\<lparr>currentTime := 0\<rparr>)
                (video_update i (\<lambda>v. v\<lparr>paused := True\<rparr>) s)),
            (video_update r (\<lambda>v. v\<lparr>paused := False\<rparr>)
              (video_update r (\<lambda>v. v\<lparr>currentTime := 0\<rparr>)
                (video_update i (\<lambda>v. v\<lparr>paused := True\<rparr>) s)))\<lparr>lastVisibleVideo := k\<rparr>]"
    and "dispatch (SlideCarousel k) s =
           (None, (video_update r (\<lambda>v. v\<lparr>paused := False\<rparr>)
              (video_update r (\<lambda>v. v\<lparr>currentTime := 0\<rparr>)
                (video_update i (\<lambda>v. v\<lparr>paused := True\<rparr>) s)))\<lparr>lastVisibleVideo := k\<rparr>)"
  using assms
  by (simp_all add: dispatch_def at_lastVisibleVideo_def set_currentTime_def play_def pause_def
      on_video_def assign_lastVisibleVideo_def)

lemma video_update_unchanged:
  assumes "f (slide_videos s ! r) = slide_videos s ! r"
  shows "video_update r f s = s"
  using assms by (simp add: video_update_def)

lemma pause_paused: "paused v \<Longrightarrow> v\<lparr>paused := True\<rparr> = v"
  by (cases v) simp

lemma example_tab_open_refs:
  "video_ref example_tab_open 0 = Some 0" "video_ref example_tab_open 1 = Some 1"
  "video_ref example_tab_open 2 = Some 2" "video_ref example_tab_open 3 = Some 3"
  "video_ref example_tab_open 4 = Some 4" "lastVisibleVideo example_tab_open = 0"
  by (simp_all add: example_tab_open_def video_ref_def js_get_def)

lemma video_ref_lastVisibleVideo_update [simp]:
  "video_ref (s\<lparr>lastVisibleVideo := k\<rparr>) = video_ref s"
  by (rule video_ref_cong) simp_all

lemma example_tab_open_clips:
  "slide_videos example_tab_open ! 0 = resolved_clip 0 7 False"
  "slide_videos example_tab_open ! 2 = resolved_clip 2 0 True"
  "length (slide_videos example_tab_open) = 5"
  by (simp_all add: example_tab_open_def)

text \<open>
  Claim C3. When \<open>slide.bs.carousel\<close> reports the slide \<open>k\<close> while the handle of
  the current clip is \<open>i\<close> and the handle of clip \<open>k\<close> is \<open>r\<close>, the listener
  passes through four states without exception, in this order: clip \<open>i\<close> paused
  (\<open>lastVisibleVideo\<close> still the old index), clip \<open>r\<close> at position 0, clip \<open>r\<close>
  playing, and \<open>lastVisibleVideo = k\<close>. The concrete run is Scenario D: index 2 is
  reported while clip 0 plays.
\<close>

theorem slide_change_order:
  fixes s :: sidebar and k i r :: nat
  defines "s1 \<equiv> video_update i (\<lambda>v. v\<lparr>paused := True\<rparr>) s"
  defines "s2 \<equiv> video_update r (\<lambda>v. v\<lparr>currentTime := 0\<rparr>) s1"
  defines "s3 \<equiv> video_update r (\<lambda>v. v\<lparr>paused := False\<rparr>) s2"
  defines "s4 \<equiv> s3\<lparr>lastVisibleVideo := k\<rparr>"
  assumes "video_ref s (lastVisibleVideo s) = Some i" and "video_ref s k = Some r"
  shows "states (listener (SlideCarousel k) s) s = [s1, s2, s3, s4] \<and>
         dispatch (SlideCarousel k) s = (None, s4) \<and>
         paused (slide_videos s1 ! i) \<and> lastVisibleVideo s1 = lastVisibleVideo s \<and>
         currentTime (slide_videos s2 ! r) = 0 \<and> paused (slide_videos s2 ! r) = paused (slide_videos s1 ! r) \<and>
         \<not> paused (slide_videos s3 ! r) \<and> currentTime (slide_videos s3 ! r) = 0 \<and>
         lastVisibleVideo s3 = lastVisibleVideo s \<and>
         lastVisibleVideo s4 = k \<and> slide_videos s4 = slide_videos s3 \<and>
         (i \<noteq> r \<longrightarrow> paused (slide_videos s4 ! i))"
proof -
  from assms(5,6) have l: "i < length (slide_videos s)" "r < length (slide_videos s)"
    by (auto dest: video_ref_less)
  from slide_run [OF assms(5,6)]
  have "states (listener (SlideCarousel k) s) s = [s1, s2, s3, s4]"
    and "dispatch (SlideCarousel k) s = (None, s4)"
    by (simp_all add: s1_def s2_def s3_def s4_def)
  moreover from l have "paused (slide_videos s1 ! i)" "lastVisibleVideo s1 = lastVisibleVideo s"
    by (simp_all add: s1_def nth_video_update)
  moreover from l have "currentTime (slide_videos s2 ! r) = 0"
    "paused (slide_videos s2 ! r) = paused (slide_videos s1 ! r)"
    by (simp_all add: s2_def s1_def nth_video_update)
  moreover from l have "\<not> paused (slide_videos s3 ! r)" "currentTime (slide_videos s3 ! r) = 0"
    "lastVisibleVideo s3 = lastVisibleVideo s"
    by (simp_all add: s3_def s2_def s1_def nth_video_update)
  moreover have "lastVisibleVideo s4 = k" "slide_videos s4 = slide_videos s3"
    by (simp_all add: s4_def)
  moreover from l have "i \<noteq> r \<longrightarrow> paused (slide_videos s4 ! i)"
    by (simp add: s4_def s3_def s2_def s1_def nth_video_update)
  ultimately show ?thesis by simp
qed

theorem slide_change_order_witness:
  "video_ref example_tab_open (lastVisibleVideo example_tab_open) = Some 0 \<and>
   video_ref example_tab_open 2 = Some 2 \<and>
   \<not> paused (slide_videos example_tab_open ! 0) \<and>
   fst (dispatch (SlideCarousel 2) example_tab_open) = None \<and>
   paused (slide_videos (snd (dispatch (SlideCarousel 2) example_tab_open)) ! 0) \<and>
   currentTime (slide_videos (snd (dispatch (SlideCarousel 2) example_tab_open)) ! 2) = 0 \<and>
   \<not> paused (slide_videos (snd (dispatch (SlideCarousel 2) example_tab_open)) ! 2) \<and>
   lastVisibleVideo (snd (dispatch (SlideCarousel 2) example_tab_open)) = 2"
proof -
  have a: "video_ref example_tab_open (lastVisibleVideo example_tab_open) = Some 0"
    and b: "video_ref example_tab_open 2 = Some 2"
    by (simp_all add: example_tab_open_refs)
  have c: "\<not> paused (slide_videos example_tab_open ! 0)"
    by (simp add: example_tab_open_clips resolved_clip_def)
  from slide_change_order [OF a b]
  have "dispatch (SlideCarousel 2) example_tab_open =
      (None, (video_update 2 (\<lambda>v. v\<lparr>paused := False\<rparr>)
        (video_update 2 (\<lambda>v. v\<lparr>currentTime := 0\<rparr>)
          (video_update 0 (\<lambda>v. v\<lparr>paused := True\<rparr>) example_tab_open)))\<lparr>lastVisibleVideo := 2\<rparr>)"
    by blast
  with a b c show ?thesis
    by (simp add: nth_video_update example_tab_open_clips)
qed

text \<open>
  Claim C9, as amended. When \<open>hidden.bs.collapse\<close> fires and the handle of the
  current clip is resolved but the clip does not play, the listener completes without
  exception and changes nothing. When the handle is not resolved, and so for every
  freshly constructed sidebar, \<open>this.videos[this.lastVisibleVideo]\<close> is \<open>undefined\<close>
  and the listener throws a \<open>TypeError\<close>, the state unchanged. The claim as stated, no
  exception before any handle is resolved, fails on the constructed example.
\<close>

theorem tab_hidden_before_start:
  "(video_ref s (lastVisibleVideo s) = Some r \<and> paused (slide_videos s ! r) \<longrightarrow>
      dispatch HiddenCollapse s = (None, s)) \<and>
   (video_ref s (lastVisibleVideo s) = None \<longrightarrow>
      dispatch HiddenCollapse s = (Some TypeError, s)) \<and>
   (constructor markup clips store = Inr s \<longrightarrow>
      dispatch HiddenCollapse s = (Some TypeError, s))"
proof (intro conjI impI)
  assume a: "video_ref s (lastVisibleVideo s) = Some r \<and> paused (slide_videos s ! r)"
  then have "video_update r (\<lambda>v. v\<lparr>paused := True\<rparr>) s = s"
    by (intro video_update_unchanged) (simp add: pause_paused)
  with hidden_run(2) [of s r] a show "dispatch HiddenCollapse s = (None, s)" by simp
next
  assume "video_ref s (lastVisibleVideo s) = None"
  then show "dispatch HiddenCollapse s = (Some TypeError, s)" by (rule hidden_unresolved)
next
  assume "constructor markup clips store = Inr s"
  then have "videos s = []" by (auto simp add: constructor_def split: if_splits)
  then have "video_ref s (lastVisibleVideo s) = None" by (rule video_ref_empty)
  then show "dispatch HiddenCollapse s = (Some TypeError, s)" by (rule hidden_unresolved)
qed

lemma example_constructor:
  "constructor example_markup example_clips store = Inr (example_sidebar store)"
  by (simp add: constructor_def listener_targets_def example_markup_def example_sidebar_def)

theorem tab_hidden_before_start_witness:
  "video_ref example_tab_open 2 = Some 2 \<and> paused (slide_videos example_tab_open ! 2) \<and>
   dispatch HiddenCollapse (example_tab_open\<lparr>lastVisibleVideo := 2\<rparr>) =
     (None, example_tab_open\<lparr>lastVisibleVideo := 2\<rparr>) \<and>
   video_ref (example_sidebar []) (lastVisibleVideo (example_sidebar [])) = None \<and>
   constructor example_markup example_clips [] = Inr (example_sidebar []) \<and>
   dispatch HiddenCollapse (example_sidebar []) = (Some TypeError, example_sidebar [])"
proof -
  let ?s = "example_tab_open\<lparr>lastVisibleVideo := 2\<rparr>"
  have a: "video_ref ?s (lastVisibleVideo ?s) = Some 2"
    by (simp add: example_tab_open_refs)
  have b: "paused (slide_videos ?s ! 2)"
    by (simp add: example_tab_open_clips resolved_clip_def)
  have c: "video_ref (example_sidebar []) (lastVisibleVideo (example_sidebar [])) = None"
    by (simp add: video_ref_def js_get_def example_sidebar_def)
  note d = example_constructor [of "[]"]
  from tab_hidden_before_start [of ?s 2] a b
  have "dispatch HiddenCollapse ?s = (None, ?s)" by blast
  moreover from tab_hidden_before_start [of "example_sidebar []" 0 example_markup example_clips "[]"] d
  have "dispatch HiddenCollapse (example_sidebar []) = (Some TypeError, example_sidebar [])"
    by blast
  ultimately show ?thesis using a b c d
    by (simp add: example_tab_open_refs)
qed

theorem tab_hidden_before_start_counterexample:
  "constructor example_markup example_clips [] = Inr (example_sidebar []) \<and>
   videos (example_sidebar []) = [] \<and>
   fst (dispatch HiddenCollapse (example_sidebar [])) = Some TypeError"
  by (simp add: constructor_def listener_targets_def example_markup_def example_sidebar_def
      dispatch_def at_lastVisibleVideo_def pause_def on_video_def video_ref_def js_get_def)

subsection \<open>What the listeners leave alone\<close>

lemma on_video_fields:
  assumes "on_video i f u = Inr u'"
  shows "videos u' = videos u \<and> lastVisibleVideo u' = lastVisibleVideo u \<and>
         show_once u' = show_once u \<and> length (slide_videos u') = length (slide_videos u)"
  using assms by (elim on_video_Inr) simp

lemma listener_frame:
  assumes c: "c \<in> set (listener ev s)" and r: "c u = Inr u'"
  shows "length (slide_videos u') = length (slide_videos u) \<and>
         (show_once u' \<longrightarrow> show_once u) \<and>
         (ev \<noteq> ShowCollapse \<longrightarrow> videos u' = videos u \<and> show_once u' = show_once u) \<and>
         ((\<forall>k. ev \<noteq> SlideCarousel k) \<longrightarrow> lastVisibleVideo u' = lastVisibleVideo u)"
proof (cases ev)
  case ShowCollapse
  with c have "c = remove_once_listener \<or> c \<in> set (for_loop 0 5 resolve_video)"
    by (simp split: if_splits)
  with for_loop_resolve_cases [of c 0 5] consider "c = remove_once_listener"
    | j where "c = assign_video j" | j w where "c = set_src j w" | j b where "c = set_loop j b"
    by blast
  then show ?thesis
  proof cases
    case 1
    with r ShowCollapse show ?thesis by (auto simp add: remove_once_listener_def)
  next
    case 2
    with r ShowCollapse show ?thesis by (auto simp add: assign_video_def)
  next
    case 3
    with r have "on_video j (\<lambda>v. v\<lparr>src := w\<rparr>) u = Inr u'" by (simp add: set_src_def)
    from on_video_fields [OF this] ShowCollapse show ?thesis by simp
  next
    case 4
    with r have "on_video j (\<lambda>v. v\<lparr>loop := b\<rparr>) u = Inr u'" by (simp add: set_loop_def)
    from on_video_fields [OF this] ShowCollapse show ?thesis by simp
  qed
next
  case ShownCollapse
  with c consider "c = at_lastVisibleVideo (\<lambda>i. set_currentTime i 0)" | "c = at_lastVisibleVideo play"
    by auto
  then show ?thesis
  proof cases
    case 1
    with r have "on_video (lastVisibleVideo u) (\<lambda>v. v\<lparr>currentTime := 0\<rparr>) u = Inr u'"
      by (simp add: at_lastVisibleVideo_def set_currentTime_def)
    from on_video_fields [OF this] show ?thesis by simp
  next
    case 2
    with r have "on_video (lastVisibleVideo u) (\<lambda>v. v\<lparr>paused := False\<rparr>) u = Inr u'"
      by (simp add: at_lastVisibleVideo_def play_def)
    from on_video_fields [OF this] show ?thesis by simp
  qed
next
  case HiddenCollapse
  with c r have "on_video (lastVisibleVideo u) (\<lambda>v. v\<lparr>paused := True\<rparr>) u = Inr u'"
    by (simp add: at_lastVisibleVideo_def pause_def)
  from on_video_fields [OF this] show ?thesis by simp
next
  case (SlideCarousel k)
  with c consider "c = at_lastVisibleVideo pause" | "c = set_currentTime k 0" | "c = play k"
    | "c = assign_lastVisibleVideo k"
    by auto
  then show ?thesis
  proof cases
    case 1
    with r have "on_video (lastVisibleVideo u) (\<lambda>v. v\<lparr>paused := True\<rparr>) u = Inr u'"
      by (simp add: at_lastVisibleVideo_def pause_def)
    from on_video_fields [OF this] SlideCarousel show ?thesis by simp
  next
    case 2
    with r have "on_video k (\<lambda>v. v\<lparr>currentTime := 0\<rparr>) u = Inr u'"
      by (simp add: set_currentTime_def)
    from on_video_fields [OF this] SlideCarousel show ?thesis by simp
  next
    case 3
    with r have "on_video k (\<lambda>v. v\<lparr>paused := False\<rparr>) u = Inr u'"
      by (simp add: play_def)
    from on_video_fields [OF this] SlideCarousel show ?thesis by simp
  next
    case 4
    with r SlideCarousel show ?thesis by (auto simp add: assign_lastVisibleVideo_def)
  qed
next
  case ClickShow
  with c have "c \<in> set (setVisibility_stmts True s)" by simp
  from setVisibility_stmts_frame [OF this r] show ?thesis by simp
next
  case ClickHide
  with c have "c \<in> set (setVisibility_stmts False s)" by simp
  from setVisibility_stmts_frame [OF this r] show ?thesis by simp
next
  case (SettingsChanged v)
  with c have "c \<in> set (setVisibility_stmts v s)" by simp
  from setVisibility_stmts_frame [OF this r] show ?thesis by simp
next
  case (FetchResolved v)
  with c have "c \<in> set (setVisibility_stmts v s)" by simp
  from setVisibility_stmts_frame [OF this r] show ?thesis by simp
qed

lemma dispatch_length: "length (slide_videos (snd (dispatch ev s))) = length (slide_videos s)"
  unfolding dispatch_def
proof (rule run_preserve [of "listener ev s" "\<lambda>u. length (slide_videos u) = length (slide_videos s)"])
  fix c u u'
  assume "c \<in> set (listener ev s)" and q: "length (slide_videos u) = length (slide_videos s)"
    and "c u = Inr u'"
  from listener_frame [OF this(1) this(3)] q
  show "length (slide_videos u') = length (slide_videos s)" by simp
qed simp

lemma dispatch_show_once:
  assumes "\<not> show_once s"
  shows "\<not> show_once (snd (dispatch ev s))"
  unfolding dispatch_def
proof (rule run_preserve [of "listener ev s" "\<lambda>u. \<not> show_once u"])
  fix c u u'
  assume "c \<in> set (listener ev s)" and q: "\<not> show_once u" and "c u = Inr u'"
  from listener_frame [OF this(1) this(3)] q show "\<not> show_once u'" by simp
qed (rule assms)

lemma dispatch_videos:
  assumes "ev \<noteq> ShowCollapse"
  shows "videos (snd (dispatch ev s)) = videos s \<and> show_once (snd (dispatch ev s)) = show_once s"
  unfolding dispatch_def
proof (rule run_preserve
    [of "listener ev s" "\<lambda>u. videos u = videos s \<and> show_once u = show_once s"])
  fix c u u'
  assume "c \<in> set (listener ev s)" and q: "videos u = videos s \<and> show_once u = show_once s"
    and "c u = Inr u'"
  from listener_frame [OF this(1) this(3)] q assms
  show "videos u' = videos s \<and> show_once u' = show_once s" by simp
qed simp

lemma dispatch_lastVisibleVideo:
  assumes "\<And>k. ev \<noteq> SlideCarousel k"
  shows "lastVisibleVideo (snd (dispatch ev s)) = lastVisibleVideo s"
  unfolding dispatch_def
proof (rule run_preserve [of "listener ev s" "\<lambda>u. lastVisibleVideo u = lastVisibleVideo s"])
  fix c u u'
  assume "c \<in> set (listener ev s)" and q: "lastVisibleVideo u = lastVisibleVideo s"
    and "c u = Inr u'"
  from listener_frame [OF this(1) this(3)] q assms
  show "lastVisibleVideo u' = lastVisibleVideo s" by simp
qed simp

lemma dispatch_show_again:
  assumes "\<not> show_once s"
  shows "listener ShowCollapse s = []" and "dispatch ShowCollapse s = (None, s)"
  using assms by (simp_all add: dispatch_def)

lemma dispatch_video_ref:
  assumes "\<not> show_once s"
  shows "video_ref (snd (dispatch ev s)) = video_ref s"
proof (cases "ev = ShowCollapse")
  case True
  with dispatch_show_again(2) [OF assms] show ?thesis by simp
next
  case False
  from dispatch_videos [OF False, of s] dispatch_length [of ev s] show ?thesis
    by (intro video_ref_cong) simp_all
qed

subsection \<open>The listener that resolves the clips\<close>

lemma run_append:
  "run (cs @ ds) s = (case run cs s of (None, s') \<Rightarrow> run ds s' | (Some e, s') \<Rightarrow> (Some e, s'))"
  by (induction cs arbitrary: s) (auto split: sum.splits)

lemma deliver_append: "deliver (xs @ ys) s = deliver ys (deliver xs s)"
  by (induction xs arbitrary: s) simp_all

lemma resolve_video_run:
  assumes "videos s = map Some [0..<i]" and "i < length (slide_videos s)"
  shows "run (resolve_video i) s =
     (None, video_update i (\<lambda>v. v\<lparr>loop := True\<rparr>)
        (video_update i (\<lambda>v. v\<lparr>src := video_asset i\<rparr>)
           (s\<lparr>videos := map Some [0..<Suc i]\<rparr>)))"
proof -
  let ?s1 = "s\<lparr>videos := map Some [0..<Suc i]\<rparr>"
  from assms have 1: "assign_video i s = Inr ?s1"
    by (simp add: assign_video_def js_set_def query_video_def)
  from assms(2) have r: "video_ref ?s1 i = Some i"
    by (simp add: video_ref_def js_get_def nth_append)
  then have 2: "set_src i (video_asset i) ?s1 =
      Inr (video_update i (\<lambda>v. v\<lparr>src := video_asset i\<rparr>) ?s1)"
    by (simp add: set_src_def on_video_Some)
  from r have 3: "set_loop i True (video_update i (\<lambda>v. v\<lparr>src := video_asset i\<rparr>) ?s1) =
      Inr (video_update i (\<lambda>v. v\<lparr>loop := True\<rparr>)
        (video_update i (\<lambda>v. v\<lparr>src := video_asset i\<rparr>) ?s1))"
    by (simp add: set_loop_def on_video_Some)
  from 1 2 3 show ?thesis by (simp add: resolve_video_def)
qed

lemma for_loop_run:
  assumes "videos s = map Some [0..<i]" and "i + n \<le> length (slide_videos s)"
  shows "\<exists>s'. run (for_loop i n resolve_video) s = (None, s') \<and>
           videos s' = map Some [0..<i + n] \<and>
           length (slide_videos s') = length (slide_videos s) \<and>
           (\<forall>j. slide_videos s' ! j =
              (if i \<le> j \<and> j < i + n
               then (slide_videos s ! j)\<lparr>src := video_asset j, loop := True\<rparr>
               else slide_videos s ! j)) \<and>
           lastVisibleVideo s' = lastVisibleVideo s \<and> show_once s' = show_once s \<and>
           visible s' = visible s \<and> elements s' = elements s \<and> appSettings s' = appSettings s"
  using assms
proof (induction n arbitrary: i s)
  case 0
  then show ?case by auto
next
  case (Suc n)
  define s1 where "s1 = video_update i (\<lambda>v. v\<lparr>loop := True\<rparr>)
        (video_update i (\<lambda>v. v\<lparr>src := video_asset i\<rparr>)
           (s\<lparr>videos := map Some [0..<Suc i]\<rparr>))"
  from Suc.prems have i: "i < length (slide_videos s)" by simp
  from resolve_video_run [OF Suc.prems(1) i] have r1: "run (resolve_video i) s = (None, s1)"
    by (simp only: s1_def)
  have v1: "videos s1 = map Some [0..<Suc i]" by (simp add: s1_def)
  have l1: "length (slide_videos s1) = length (slide_videos s)" by (simp add: s1_def)
  have f1: "lastVisibleVideo s1 = lastVisibleVideo s" "show_once s1 = show_once s"
    "visible s1 = visible s" "elements s1 = elements s" "appSettings s1 = appSettings s"
    by (simp_all add: s1_def)
  have n1: "slide_videos s1 ! j =
      (if j = i then (slide_videos s ! i)\<lparr>src := video_asset i, loop := True\<rparr>
       else slide_videos s ! j)" for j
    using i by (simp add: s1_def nth_video_update)
  from Suc.prems(2) l1 have "Suc i + n \<le> length (slide_videos s1)" by simp
  from Suc.IH [OF v1 this] obtain s' where
    run: "run (for_loop (Suc i) n resolve_video) s1 = (None, s')"
    and v: "videos s' = map Some [0..<Suc i + n]"
    and l: "length (slide_videos s') = length (slide_videos s1)"
    and c: "\<forall>j. slide_videos s' ! j =
              (if Suc i \<le> j \<and> j < Suc i + n
               then (slide_videos s1 ! j)\<lparr>src := video_asset j, loop := True\<rparr>
               else slide_videos s1 ! j)"
    and f: "lastVisibleVideo s' = lastVisibleVideo s1" "show_once s' = show_once s1"
      "visible s' = visible s1" "elements s' = elements s1" "appSettings s' = appSettings s1"
    by blast
  have "run (for_loop i (Suc n) resolve_video) s = (None, s')"
    by (simp add: run_append r1 run)
  moreover have "\<forall>j. slide_videos s' ! j =
              (if i \<le> j \<and> j < i + Suc n
               then (slide_videos s ! j)\<lparr>src := video_asset j, loop := True\<rparr>
               else slide_videos s ! j)"
    using c by (auto simp add: n1)
  moreover have "videos s' = map Some [0..<i + Suc n]"
    using v by simp
  ultimately show ?case using l l1 f f1 by simp
qed

lemma show_resolves:
  assumes "show_once s" and "videos s = []" and "5 \<le> length (slide_videos s)"
  shows "\<exists>s'. dispatch ShowCollapse s = (None, s') \<and>
           videos s' = map Some [0..<5] \<and> \<not> show_once s' \<and>
           length (slide_videos s') = length (slide_videos s) \<and>
           (\<forall>j. slide_videos s' ! j =
              (if j < 5 then (slide_videos s ! j)\<lparr>src := video_asset j, loop := True\<rparr>
               else slide_videos s ! j)) \<and>
           lastVisibleVideo s' = lastVisibleVideo s"
proof -
  let ?s0 = "s\<lparr>show_once := False\<rparr>"
  from assms have "videos ?s0 = map Some [0..<0]" and "0 + 5 \<le> length (slide_videos ?s0)"
    by simp_all
  from for_loop_run [OF this] assms(1) show ?thesis
    by (auto simp add: dispatch_def remove_once_listener_def)
qed

lemma show_removes_listener: "\<not> show_once (snd (dispatch ShowCollapse s))"
proof (cases "show_once s")
  case False
  then show ?thesis by (simp add: dispatch_def)
next
  case True
  let ?s0 = "s\<lparr>show_once := False\<rparr>"
  have "\<not> show_once (snd (run (for_loop 0 5 resolve_video) ?s0))"
  proof (rule run_preserve [of "for_loop 0 5 resolve_video" "\<lambda>u. \<not> show_once u"])
    fix c u u'
    assume "c \<in> set (for_loop 0 5 resolve_video)" and q: "\<not> show_once u" and r: "c u = Inr u'"
    with True have "c \<in> set (listener ShowCollapse s)" by simp
    from listener_frame [OF this r] q show "\<not> show_once u'" by simp
  qed simp
  with True show ?thesis by (simp add: dispatch_def remove_once_listener_def)
qed

lemma deliver_show_once: "\<not> show_once s \<Longrightarrow> \<not> show_once (deliver evs s)"
  by (induction evs arbitrary: s) (simp_all add: dispatch_show_once)

lemma setVisibility_stmts_slide_videos:
  "slide_videos (snd (run (setVisibility_stmts v s) s)) = slide_videos s"
proof (rule run_preserve [of "setVisibility_stmts v s" "\<lambda>u. slide_videos u = slide_videos s"])
  fix c u u'
  assume "c \<in> set (setVisibility_stmts v s)" and q: "slide_videos u = slide_videos s"
    and "c u = Inr u'"
  from setVisibility_stmts_frame [OF this(1) this(3)] q
  show "slide_videos u' = slide_videos s" by simp
qed simp

lemma unresolved_dispatch:
  assumes "videos s = []" and "ev \<noteq> ShowCollapse"
  shows "videos (snd (dispatch ev s)) = [] \<and> slide_videos (snd (dispatch ev s)) = slide_videos s \<and>
         show_once (snd (dispatch ev s)) = show_once s"
proof -
  from assms(1) have n: "video_ref s i = None" for i by (rule video_ref_empty)
  have "slide_videos (snd (dispatch ev s)) = slide_videos s"
  proof (cases ev)
    case ShowCollapse
    with assms(2) show ?thesis by simp
  next
    case ShownCollapse
    then show ?thesis
      by (simp add: dispatch_def at_lastVisibleVideo_def set_currentTime_def on_video_None n)
  next
    case HiddenCollapse
    then show ?thesis
      by (simp add: dispatch_def at_lastVisibleVideo_def pause_def on_video_None n)
  next
    case (SlideCarousel k)
    then show ?thesis
      by (simp add: dispatch_def at_lastVisibleVideo_def pause_def on_video_None n)
  next
    case ClickShow
    then show ?thesis by (simp add: dispatch_def setVisibility_stmts_slide_videos)
  next
    case ClickHide
    then show ?thesis by (simp add: dispatch_def setVisibility_stmts_slide_videos)
  next
    case (SettingsChanged v)
    then show ?thesis by (simp add: dispatch_def setVisibility_stmts_slide_videos)
  next
    case (FetchResolved v)
    then show ?thesis by (simp add: dispatch_def setVisibility_stmts_slide_videos)
  qed
  with dispatch_videos [OF assms(2), of s] assms(1) show ?thesis by simp
qed

lemma unresolved_deliver:
  assumes "videos s = []" and "ShowCollapse \<notin> set evs"
  shows "videos (deliver evs s) = [] \<and> slide_videos (deliver evs s) = slide_videos s \<and>
         show_once (deliver evs s) = show_once s"
  using assms
proof (induction evs arbitrary: s)
  case Nil
  then show ?case by simp
next
  case (Cons ev evs)
  from Cons.prems have ev: "ev \<noteq> ShowCollapse" and evs: "ShowCollapse \<notin> set evs" by auto
  note u = unresolved_dispatch [OF Cons.prems(1) ev]
  from u have "videos (snd (dispatch ev s)) = []" by simp
  from Cons.IH [OF this evs] u show ?case by simp
qed

text \<open>
  Claim C6. From a sidebar constructed over markup with at least five clips: as long as
  no \<open>show.bs.collapse\<close> is delivered, \<open>videos\<close> stays empty and no clip gets a
  source; the first \<open>show.bs.collapse\<close> completes without exception, fills \<open>videos\<close>
  with the handles 0 to 4 and gives each of the five clips its source and loop mode; and
  after a \<open>show.bs.collapse\<close> has been delivered, every later one runs no statement
  and leaves the state as it is.
\<close>

theorem lazy_one_shot_resolution:
  assumes "constructor markup clips store = Inr s" and "5 \<le> length clips"
    and "ShowCollapse \<notin> set evs"
  shows "videos (deliver evs s) = [] \<and>
         map src (slide_videos (deliver evs s)) = map src clips \<and>
         fst (dispatch ShowCollapse (deliver evs s)) = None \<and>
         videos (deliver (evs @ [ShowCollapse]) s) = map Some [0..<5] \<and>
         (\<forall>i < 5. video_ref (deliver (evs @ [ShowCollapse]) s) i = Some i \<and>
            src (slide_videos (deliver (evs @ [ShowCollapse]) s) ! i) = video_asset i \<and>
            loop (slide_videos (deliver (evs @ [ShowCollapse]) s) ! i)) \<and>
         listener ShowCollapse (deliver (evs @ ShowCollapse # later) s) = [] \<and>
         dispatch ShowCollapse (deliver (evs @ ShowCollapse # later) s) =
           (None, deliver (evs @ ShowCollapse # later) s)"
proof -
  from assms(1) have s: "videos s = []" "slide_videos s = clips" "show_once s"
    by (auto simp add: constructor_def split: if_splits)
  let ?u = "deliver evs s"
  from unresolved_deliver [OF s(1) assms(3)] s
  have u: "videos ?u = []" "slide_videos ?u = clips" "show_once ?u" by simp_all
  from u(2) assms(2) have "5 \<le> length (slide_videos ?u)" by simp
  from show_resolves [OF u(3) u(1) this] obtain s' where
    d: "dispatch ShowCollapse ?u = (None, s')"
    and v: "videos s' = map Some [0..<5]"
    and l: "length (slide_videos s') = length (slide_videos ?u)"
    and c: "\<forall>j. slide_videos s' ! j =
              (if j < 5 then (slide_videos ?u ! j)\<lparr>src := video_asset j, loop := True\<rparr>
               else slide_videos ?u ! j)"
    by blast
  have e: "deliver (evs @ [ShowCollapse]) s = s'"
    by (simp add: deliver_append d)
  have r: "video_ref s' i = Some i" if "i < 5" for i
    using that v l u(2) assms(2) by (simp add: video_ref_def js_get_def)
  have "\<not> show_once (deliver (evs @ ShowCollapse # later) s)"
    by (simp add: deliver_append deliver_show_once show_removes_listener)
  note again = dispatch_show_again [OF this]
  from u d v c r again show ?thesis
    by (simp add: e)
qed

lemma example_clips_length: "length example_clips = 5"
  by (simp add: example_clips_def)

theorem lazy_one_shot_resolution_witness:
  "constructor example_markup example_clips [] = Inr (example_sidebar []) \<and>
   5 \<le> length example_clips \<and> ShowCollapse \<notin> set [ClickHide, ClickShow] \<and>
   videos (deliver [ClickHide, ClickShow] (example_sidebar [])) = [] \<and>
   videos (deliver ([ClickHide, ClickShow] @ [ShowCollapse]) (example_sidebar [])) =
     map Some [0..<5] \<and>
   src (slide_videos (deliver ([ClickHide, ClickShow] @ [ShowCollapse]) (example_sidebar [])) ! 4) =
     ''../../../../assets/videos/introduction-5.mp4'' \<and>
   dispatch ShowCollapse
     (deliver ([ClickHide, ClickShow] @ ShowCollapse # [ShownCollapse]) (example_sidebar [])) =
     (None, deliver ([ClickHide, ClickShow] @ ShowCollapse # [ShownCollapse]) (example_sidebar []))"
proof -
  note a = example_constructor [of "[]"]
  have b: "5 \<le> length example_clips" by (simp add: example_clips_length)
  have c: "ShowCollapse \<notin> set [ClickHide, ClickShow]" by simp
  have d: "video_asset 4 = ''../../../../assets/videos/introduction-5.mp4''"
    by code_simp
  from lazy_one_shot_resolution [OF a b c, of "[ShownCollapse]"] a b c d show ?thesis
    by simp
qed

subsection \<open>The current clip across events\<close>

lemma clips_resolved_iff:
  "clips_resolved s \<longleftrightarrow> \<not> show_once s \<and> (\<forall>i<5. video_ref s i \<noteq> None)"
  by (auto simp add: clips_resolved_def list_all_iff)

lemma last_slide_less:
  assumes "i < 5" and "list_all (\<lambda>k. k < 5) (slide_indices evs)"
  shows "last_slide evs i < 5"
  using assms
proof (induction evs arbitrary: i)
  case Nil
  then show ?case by simp
next
  case (Cons ev evs)
  then show ?case by (cases ev) simp_all
qed

lemma resolved_dispatch:
  assumes res: "clips_resolved s" and l: "lastVisibleVideo s < 5"
    and k: "list_all (\<lambda>k. k < 5) (slide_indices [ev])"
  shows "clips_resolved (snd (dispatch ev s))"
    and "lastVisibleVideo (snd (dispatch ev s)) = last_slide [ev] (lastVisibleVideo s)"
    and "video_ref (snd (dispatch ev s)) = video_ref s"
proof -
  from res have once: "\<not> show_once s" and refs: "\<And>i. i < 5 \<Longrightarrow> video_ref s i \<noteq> None"
    by (simp_all add: clips_resolved_iff)
  show v: "video_ref (snd (dispatch ev s)) = video_ref s"
    by (rule dispatch_video_ref [OF once])
  from dispatch_show_once [OF once] v refs show "clips_resolved (snd (dispatch ev s))"
    by (simp add: clips_resolved_iff)
  show "lastVisibleVideo (snd (dispatch ev s)) = last_slide [ev] (lastVisibleVideo s)"
  proof (cases "\<exists>j. ev = SlideCarousel j")
    case True
    then obtain j where ev: "ev = SlideCarousel j" by blast
    with k have "j < 5" by simp
    with refs l obtain i r where "video_ref s (lastVisibleVideo s) = Some i"
      and "video_ref s j = Some r"
      by fastforce
    from slide_run(2) [OF this] ev show ?thesis by simp
  next
    case False
    then have n: "\<And>j. ev \<noteq> SlideCarousel j" by blast
    from False have "last_slide [ev] (lastVisibleVideo s) = lastVisibleVideo s"
      by (cases ev) auto
    with dispatch_lastVisibleVideo [OF n, of s] show ?thesis by simp
  qed
qed

lemma resolved_deliver:
  assumes "clips_resolved s" and "lastVisibleVideo s < 5"
    and "list_all (\<lambda>k. k < 5) (slide_indices evs)"
  shows "clips_resolved (deliver evs s) \<and>
         lastVisibleVideo (deliver evs s) = last_slide evs (lastVisibleVideo s) \<and>
         video_ref (deliver evs s) = video_ref s"
  using assms
proof (induction evs arbitrary: s)
  case Nil
  then show ?case by simp
next
  case (Cons ev evs)
  from Cons.prems(3) have k1: "list_all (\<lambda>k. k < 5) (slide_indices [ev])"
    and k2: "list_all (\<lambda>k. k < 5) (slide_indices evs)"
    by (cases ev; simp)+
  note d = resolved_dispatch [OF Cons.prems(1,2) k1]
  from last_slide_less [OF Cons.prems(2) k1] d(2)
  have "lastVisibleVideo (snd (dispatch ev s)) < 5" by simp
  from Cons.IH [OF d(1) this k2] d(2,3) show ?case by (cases ev) simp_all
qed

lemma playing_clips_single:
  assumes "\<forall>a. playing t a \<longleftrightarrow> a = r"
  shows "playing_clips t = [r]"
proof -
  from assms have s: "set (playing_clips t) = {r}" by (auto simp add: set_playing_clips)
  show ?thesis
  proof (cases "playing_clips t")
    case Nil
    with s show ?thesis by simp
  next
    case (Cons x ys)
    with s have x: "x = r" by auto
    have "ys = []"
    proof (cases ys)
      case Nil
      then show ?thesis .
    next
      case (Cons y zs)
      with \<open>playing_clips t = x # ys\<close> s have "y = r" by auto
      with x Cons \<open>playing_clips t = x # ys\<close> distinct_playing_clips [of t] show ?thesis by simp
    qed
    with Cons x show ?thesis by simp
  qed
qed

lemma hide_and_show:
  assumes inv: "playback_inv u" and r: "video_ref u (lastVisibleVideo u) = Some r"
  shows "fst (dispatch HiddenCollapse u) = None"
    and "fst (dispatch ShownCollapse (snd (dispatch HiddenCollapse u))) = None"
    and "currentTime (slide_videos (deliver [HiddenCollapse, ShownCollapse] u) ! r) = 0"
    and "playing_clips (deliver [HiddenCollapse, ShownCollapse] u) = [r]"
    and "lastVisibleVideo (deliver [HiddenCollapse, ShownCollapse] u) = lastVisibleVideo u"
proof -
  define h where "h = video_update r (\<lambda>v. v\<lparr>paused := True\<rparr>) u"
  define t where "t = video_update r (\<lambda>v. v\<lparr>paused := False\<rparr>)
    (video_update r (\<lambda>v. v\<lparr>currentTime := 0\<rparr>) h)"
  from r have l: "r < length (slide_videos u)" by (rule video_ref_less)
  from hidden_run(2) [OF r] have dh: "dispatch HiddenCollapse u = (None, h)"
    by (simp add: h_def)
  from r have "video_ref h (lastVisibleVideo h) = Some r" by (simp add: h_def)
  from shown_run(2) [OF this] have ds: "dispatch ShownCollapse h = (None, t)"
    by (simp add: t_def)
  from dh ds have e: "deliver [HiddenCollapse, ShownCollapse] u = t" by simp
  from dh show "fst (dispatch HiddenCollapse u) = None" by simp
  from dh ds show "fst (dispatch ShownCollapse (snd (dispatch HiddenCollapse u))) = None" by simp
  from l show "currentTime (slide_videos (deliver [HiddenCollapse, ShownCollapse] u) ! r) = 0"
    unfolding e by (simp add: t_def h_def nth_video_update)
  show "lastVisibleVideo (deliver [HiddenCollapse, ShownCollapse] u) = lastVisibleVideo u"
    unfolding e by (simp add: t_def h_def)
  have "playing t a \<longleftrightarrow> a = r" for a
  proof (cases "a = r")
    case True
    with l show ?thesis by (simp add: t_def h_def playing_video_update)
  next
    case False
    from False playback_inv_current [OF inv, of a] r have "\<not> playing u a" by auto
    with False l show ?thesis by (simp add: t_def h_def playing_video_update)
  qed
  then have "playing_clips t = [r]" by (intro playing_clips_single) simp
  then show "playing_clips (deliver [HiddenCollapse, ShownCollapse] u) = [r]" unfolding e .
qed

lemma unresolved_slide:
  assumes "video_ref s (lastVisibleVideo s) = None"
  shows "dispatch (SlideCarousel k) s = (Some TypeError, s)"
  using assms by (simp add: dispatch_def at_lastVisibleVideo_def pause_def on_video_None)

lemma no_slide_deliver:
  assumes "slide_indices evs = []"
  shows "lastVisibleVideo (deliver evs s) = lastVisibleVideo s \<and> last_slide evs i = i"
  using assms
proof (induction evs arbitrary: s)
  case Nil
  then show ?case by simp
next
  case (Cons ev evs)
  from Cons.prems have n: "\<And>k. ev \<noteq> SlideCarousel k" and r: "slide_indices evs = []"
    by (cases ev; auto)+
  from Cons.IH [OF r, of "snd (dispatch ev s)"] dispatch_lastVisibleVideo [OF n, of s] n
  show ?case by (cases ev) auto
qed

lemma last_slide_append:
  "last_slide (xs @ ys) i = last_slide ys (last_slide xs i)"
proof (induction xs arbitrary: i)
  case Nil
  show ?case by simp
next
  case (Cons x xs)
  then show ?case by (cases x) simp_all
qed

lemma example_clips_paused: "list_all paused example_clips"
  by (simp add: example_clips_def example_clip_def list_all_iff)

text \<open>
  From construction: the events before the first \<open>show.bs.collapse\<close> include no slide
  change, those after it report indices below 5.
\<close>

lemma from_construction:
  assumes c: "constructor markup clips store = Inr s" and n: "5 \<le> length clips"
    and p: "list_all paused clips"
    and pre: "ShowCollapse \<notin> set pre" "slide_indices pre = []"
    and post: "list_all (\<lambda>k. k < 5) (slide_indices post)"
  shows "lastVisibleVideo (deliver (pre @ ShowCollapse # post) s) =
           last_slide (pre @ ShowCollapse # post) 0"
    and "playing_clips (deliver ((pre @ ShowCollapse # post) @ [HiddenCollapse, ShownCollapse]) s) =
           [last_slide (pre @ ShowCollapse # post) 0]"
    and "currentTime (slide_videos
           (deliver ((pre @ ShowCollapse # post) @ [HiddenCollapse, ShownCollapse]) s) !
             last_slide (pre @ ShowCollapse # post) 0) = 0"
proof -
  from c have s: "videos s = []" "slide_videos s = clips" "show_once s" "lastVisibleVideo s = 0"
    by (auto simp add: constructor_def split: if_splits)
  let ?u = "deliver pre s"
  from unresolved_deliver [OF s(1) pre(1)] s
  have u: "videos ?u = []" "slide_videos ?u = clips" "show_once ?u" by simp_all
  from no_slide_deliver [OF pre(2), of s 0] s(4)
  have lu: "lastVisibleVideo ?u = 0" and lp: "last_slide pre 0 = 0" by simp_all
  from u(2) n have "5 \<le> length (slide_videos ?u)" by simp
  from show_resolves [OF u(3) u(1) this] obtain w where
    d: "dispatch ShowCollapse ?u = (None, w)"
    and v: "videos w = map Some [0..<5]" and o: "\<not> show_once w"
    and l: "length (slide_videos w) = length (slide_videos ?u)"
    and lw: "lastVisibleVideo w = lastVisibleVideo ?u"
    by blast
  have e: "deliver (pre @ [ShowCollapse]) s = w" by (simp add: deliver_append d)
  have r: "video_ref w i = Some i" if "i < 5" for i
    using that v l u(2) n by (simp add: video_ref_def js_get_def)
  with o have res: "clips_resolved w" by (simp add: clips_resolved_iff)
  from visited_exclusive [OF constructor_inv [OF c p], of "pre @ [ShowCollapse]"] e
  have inv: "playback_inv w" by simp
  from lw lu have l0: "lastVisibleVideo w = 0" by simp
  then have l5: "lastVisibleVideo w < 5" by simp
  let ?c = "last_slide post 0"
  have ls: "last_slide (pre @ ShowCollapse # post) 0 = ?c"
    by (simp add: last_slide_append lp)
  note rd = resolved_deliver [OF res l5 post]
  have split: "deliver (pre @ ShowCollapse # post) s = deliver post w"
    using e by (simp add: deliver_append)
  from rd l0 show "lastVisibleVideo (deliver (pre @ ShowCollapse # post) s) =
      last_slide (pre @ ShowCollapse # post) 0"
    by (simp add: split ls)
  from last_slide_less [OF l5 post] l0 have c5: "?c < 5" by simp
  from rd l0 r [OF c5]
  have cur: "video_ref (deliver post w) (lastVisibleVideo (deliver post w)) = Some ?c"
    by simp
  from visited_exclusive [OF inv, of post] have inv': "playback_inv (deliver post w)" by simp
  have split2: "deliver ((pre @ ShowCollapse # post) @ [HiddenCollapse, ShownCollapse]) s =
      deliver [HiddenCollapse, ShownCollapse] (deliver post w)"
    using split by (simp add: deliver_append)
  from hide_and_show(3,4) [OF inv' cur]
  show "playing_clips (deliver ((pre @ ShowCollapse # post) @ [HiddenCollapse, ShownCollapse]) s) =
           [last_slide (pre @ ShowCollapse # post) 0]"
    and "currentTime (slide_videos
           (deliver ((pre @ ShowCollapse # post) @ [HiddenCollapse, ShownCollapse]) s) !
             last_slide (pre @ ShowCollapse # post) 0) = 0"
    unfolding split2 ls by simp_all
qed

text \<open>
  Claim C10, as amended. Every listener but the one of \<open>slide.bs.carousel\<close> leaves
  \<open>lastVisibleVideo\<close> as it is, in particular those of \<open>shown.bs.collapse\<close> and
  \<open>hidden.bs.collapse\<close>; a constructed sidebar starts with index 0. The slide listener
  assigns the field last: when the handle of the current clip is not resolved it throws a
  \<open>TypeError\<close> at its first statement and the state, the field included, stays as it
  was. Once the five handles are resolved, after any sequence of events whose slide
  indices are below 5 the field holds the index of the last slide event (the initial one
  if there is none), and hiding and showing the tab then puts the clip of that index at
  position 0 and plays it, and no other. From construction this holds for every sequence
  in which the slide events come after the first \<open>show.bs.collapse\<close> and report indices
  below 5, over markup with five paused clips. The claim as stated, for every
  interleaving, fails: a slide event delivered to the constructed sidebar before the tab
  is shown leaves the index at 0, and clip 0 is the one that plays.
\<close>

theorem current_clip_frame:
  "lastVisibleVideo (snd (dispatch ShownCollapse s)) = lastVisibleVideo s \<and>
   lastVisibleVideo (snd (dispatch HiddenCollapse s)) = lastVisibleVideo s \<and>
   ((\<forall>k. ev \<noteq> SlideCarousel k) \<longrightarrow> lastVisibleVideo (snd (dispatch ev s)) = lastVisibleVideo s) \<and>
   (constructor markup clips store = Inr s \<longrightarrow> lastVisibleVideo s = 0) \<and>
   (clips_resolved s \<and> playback_inv s \<and> lastVisibleVideo s < 5 \<and>
    list_all (\<lambda>k. k < 5) (slide_indices evs) \<longrightarrow>
      lastVisibleVideo (deliver evs s) = last_slide evs (lastVisibleVideo s) \<and>
      (\<exists>r. video_ref s (last_slide evs (lastVisibleVideo s)) = Some r \<and>
         currentTime (slide_videos (deliver (evs @ [HiddenCollapse, ShownCollapse]) s) ! r) = 0 \<and>
         playing_clips (deliver (evs @ [HiddenCollapse, ShownCollapse]) s) = [r] \<and>
         lastVisibleVideo (deliver (evs @ [HiddenCollapse, ShownCollapse]) s) =
           last_slide evs (lastVisibleVideo s))) \<and>
   (video_ref s (lastVisibleVideo s) = None \<longrightarrow>
      dispatch (SlideCarousel j) s = (Some TypeError, s)) \<and>
   (constructor markup clips store = Inr s \<and> 5 \<le> length clips \<and> list_all paused clips \<and>
    ShowCollapse \<notin> set pre \<and> slide_indices pre = [] \<and>
    list_all (\<lambda>k. k < 5) (slide_indices post) \<longrightarrow>
      lastVisibleVideo (deliver (pre @ ShowCollapse # post) s) =
        last_slide (pre @ ShowCollapse # post) 0 \<and>
      playing_clips (deliver ((pre @ ShowCollapse # post) @ [HiddenCollapse, ShownCollapse]) s) =
        [last_slide (pre @ ShowCollapse # post) 0] \<and>
      currentTime (slide_videos
        (deliver ((pre @ ShowCollapse # post) @ [HiddenCollapse, ShownCollapse]) s) !
          last_slide (pre @ ShowCollapse # post) 0) = 0)"
proof (intro conjI impI)
  show "lastVisibleVideo (snd (dispatch ShownCollapse s)) = lastVisibleVideo s"
    by (rule dispatch_lastVisibleVideo) simp
  show "lastVisibleVideo (snd (dispatch HiddenCollapse s)) = lastVisibleVideo s"
    by (rule dispatch_lastVisibleVideo) simp
next
  assume "\<forall>k. ev \<noteq> SlideCarousel k"
  then show "lastVisibleVideo (snd (dispatch ev s)) = lastVisibleVideo s"
    by (intro dispatch_lastVisibleVideo) simp
next
  assume "constructor markup clips store = Inr s"
  then show "lastVisibleVideo s = 0"
    by (auto simp add: constructor_def split: if_splits)
next
  assume a: "clips_resolved s \<and> playback_inv s \<and> lastVisibleVideo s < 5 \<and>
    list_all (\<lambda>k. k < 5) (slide_indices evs)"
  then have res: "clips_resolved s" and inv: "playback_inv s" and l: "lastVisibleVideo s < 5"
    and k: "list_all (\<lambda>k. k < 5) (slide_indices evs)"
    by simp_all
  let ?u = "deliver evs s"
  let ?c = "last_slide evs (lastVisibleVideo s)"
  note d = resolved_deliver [OF res l k]
  from d show c: "lastVisibleVideo ?u = ?c" by simp
  from last_slide_less [OF l k] res obtain r where r: "video_ref s ?c = Some r"
    by (auto simp add: clips_resolved_iff)
  with d have "video_ref ?u (lastVisibleVideo ?u) = Some r" by simp
  from hide_and_show(3,4,5) [OF _ this] visited_exclusive [OF inv, of evs] r c
  show "\<exists>r. video_ref s ?c = Some r \<and>
         currentTime (slide_videos (deliver (evs @ [HiddenCollapse, ShownCollapse]) s) ! r) = 0 \<and>
         playing_clips (deliver (evs @ [HiddenCollapse, ShownCollapse]) s) = [r] \<and>
         lastVisibleVideo (deliver (evs @ [HiddenCollapse, ShownCollapse]) s) = ?c"
    by (simp add: deliver_append)
next
  assume "video_ref s (lastVisibleVideo s) = None"
  then show "dispatch (SlideCarousel j) s = (Some TypeError, s)"
    by (rule unresolved_slide)
next
  assume a: "constructor markup clips store = Inr s \<and> 5 \<le> length clips \<and>
    list_all paused clips \<and> ShowCollapse \<notin> set pre \<and> slide_indices pre = [] \<and>
    list_all (\<lambda>k. k < 5) (slide_indices post)"
  then have c: "constructor markup clips store = Inr s" and n: "5 \<le> length clips"
    and p: "list_all paused clips" and p1: "ShowCollapse \<notin> set pre"
    and p2: "slide_indices pre = []" and q: "list_all (\<lambda>k. k < 5) (slide_indices post)"
    by simp_all
  note f = from_construction [OF c n p p1 p2 q]
  from f(1) show "lastVisibleVideo (deliver (pre @ ShowCollapse # post) s) =
      last_slide (pre @ ShowCollapse # post) 0" .
  from f(2) show "playing_clips
      (deliver ((pre @ ShowCollapse # post) @ [HiddenCollapse, ShownCollapse]) s) =
      [last_slide (pre @ ShowCollapse # post) 0]" .
  from f(3) show "currentTime (slide_videos
      (deliver ((pre @ ShowCollapse # post) @ [HiddenCollapse, ShownCollapse]) s) !
        last_slide (pre @ ShowCollapse # post) 0) = 0" .
qed

lemma example_tab_open_resolved: "clips_resolved example_tab_open"
proof -
  have "i = 0 \<or> i = 1 \<or> i = 2 \<or> i = 3 \<or> i = 4" if "i < 5" for i :: nat
    using that by arith
  then have "\<forall>i<5. video_ref example_tab_open i \<noteq> None"
    using example_tab_open_refs by fastforce
  moreover have "\<not> show_once example_tab_open"
    by (simp add: example_tab_open_def)
  ultimately show ?thesis by (simp add: clips_resolved_iff)
qed

lemma example_tab_open_inv: "playback_inv example_tab_open"
proof (rule playback_invI)
  fix a assume "playing example_tab_open a"
  then have "a = 0"
    by (auto simp add: playing_def example_tab_open_def resolved_clip_def nth_Cons' split: if_splits)
  then show "video_ref example_tab_open (lastVisibleVideo example_tab_open) = Some a"
    by (simp add: example_tab_open_refs)
next
  assume "show_once example_tab_open"
  then show "videos example_tab_open = []" by (simp add: example_tab_open_def)
qed

lemma example_sidebar_unresolved:
  "video_ref (example_sidebar st) (lastVisibleVideo (example_sidebar st)) = None"
  by (simp add: video_ref_def js_get_def example_sidebar_def)

theorem current_clip_frame_witness:
  "(\<forall>k. HiddenCollapse \<noteq> SlideCarousel k) \<and>
   lastVisibleVideo (snd (dispatch HiddenCollapse example_tab_open)) = 0 \<and>
   constructor example_markup example_clips [] = Inr (example_sidebar []) \<and>
   lastVisibleVideo (example_sidebar []) = 0 \<and>
   clips_resolved example_tab_open \<and> playback_inv example_tab_open \<and>
   lastVisibleVideo example_tab_open < 5 \<and>
   list_all (\<lambda>k. k < 5) (slide_indices [SlideCarousel 3, HiddenCollapse, SlideCarousel 2]) \<and>
   lastVisibleVideo (deliver [SlideCarousel 3, HiddenCollapse, SlideCarousel 2] example_tab_open) = 2 \<and>
   playing_clips (deliver ([SlideCarousel 3, HiddenCollapse, SlideCarousel 2] @
      [HiddenCollapse, ShownCollapse]) example_tab_open) = [2] \<and>
   video_ref (example_sidebar []) (lastVisibleVideo (example_sidebar [])) = None \<and>
   dispatch (SlideCarousel 2) (example_sidebar []) = (Some TypeError, example_sidebar []) \<and>
   5 \<le> length example_clips \<and> list_all paused example_clips \<and>
   ShowCollapse \<notin> set [ClickHide] \<and> slide_indices [ClickHide] = [] \<and>
   list_all (\<lambda>k. k < 5) (slide_indices [ShownCollapse, SlideCarousel 3]) \<and>
   playing_clips (deliver (([ClickHide] @ ShowCollapse # [ShownCollapse, SlideCarousel 3]) @
      [HiddenCollapse, ShownCollapse]) (example_sidebar [])) = [3]"
proof -
  let ?evs = "[SlideCarousel 3, HiddenCollapse, SlideCarousel 2]"
  let ?post = "[ShownCollapse, SlideCarousel 3]"
  have a: "\<forall>k. HiddenCollapse \<noteq> SlideCarousel k" by simp
  note b = example_constructor [of "[]"]
  note c = example_tab_open_resolved example_tab_open_inv
  have d: "lastVisibleVideo example_tab_open < 5" by (simp add: example_tab_open_refs)
  have e: "list_all (\<lambda>k. k < 5) (slide_indices ?evs)" by simp
  have f: "last_slide ?evs (lastVisibleVideo example_tab_open) = 2" by simp
  note g = example_sidebar_unresolved [of "[]"]
  have h: "5 \<le> length example_clips" by (simp add: example_clips_length)
  note i = example_clips_paused
  have j: "ShowCollapse \<notin> set [ClickHide]" "slide_indices [ClickHide] = []"
    "list_all (\<lambda>k. k < 5) (slide_indices ?post)"
    by simp_all
  have k: "last_slide ([ClickHide] @ ShowCollapse # ?post) 0 = 3" by simp
  from current_clip_frame [where s = example_tab_open and ev = HiddenCollapse] a
  have 1: "lastVisibleVideo (snd (dispatch HiddenCollapse example_tab_open)) =
      lastVisibleVideo example_tab_open"
    by blast
  from current_clip_frame [where s = "example_sidebar []" and markup = example_markup
      and clips = example_clips and store = "[]"] b
  have 2: "lastVisibleVideo (example_sidebar []) = 0" by blast
  from current_clip_frame [where s = example_tab_open and evs = ?evs] c d e
  have "lastVisibleVideo (deliver ?evs example_tab_open) =
      last_slide ?evs (lastVisibleVideo example_tab_open) \<and>
    (\<exists>r. video_ref example_tab_open (last_slide ?evs (lastVisibleVideo example_tab_open)) = Some r \<and>
       playing_clips (deliver (?evs @ [HiddenCollapse, ShownCollapse]) example_tab_open) = [r])"
    by blast
  with f have 3: "lastVisibleVideo (deliver ?evs example_tab_open) = 2"
    and 4: "playing_clips (deliver (?evs @ [HiddenCollapse, ShownCollapse]) example_tab_open) = [2]"
    by (simp_all add: example_tab_open_refs)
  from current_clip_frame [where s = "example_sidebar []" and j = 2] g
  have 5: "dispatch (SlideCarousel 2) (example_sidebar []) = (Some TypeError, example_sidebar [])"
    by blast
  from current_clip_frame [where s = "example_sidebar []" and markup = example_markup
      and clips = example_clips and store = "[]" and pre = "[ClickHide]" and post = ?post]
    b h i j
  have "playing_clips (deliver (([ClickHide] @ ShowCollapse # ?post) @
      [HiddenCollapse, ShownCollapse]) (example_sidebar [])) =
      [last_slide ([ClickHide] @ ShowCollapse # ?post) 0]"
    by blast
  with k have 6: "playing_clips (deliver (([ClickHide] @ ShowCollapse # ?post) @
      [HiddenCollapse, ShownCollapse]) (example_sidebar [])) = [3]"
    by (simp only:)
  from a b c d e g h i j 1 2 3 4 5 6 show ?thesis
    by (simp only: example_tab_open_refs simp_thms)
qed

theorem current_clip_frame_counterexample:
  "constructor example_markup example_clips [] = Inr (example_sidebar []) \<and>
   dispatch (SlideCarousel 2) (example_sidebar []) = (Some TypeError, example_sidebar []) \<and>
   last_slide [SlideCarousel 2, ShowCollapse, ShownCollapse]
     (lastVisibleVideo (example_sidebar [])) = 2 \<and>
   lastVisibleVideo (deliver [SlideCarousel 2, ShowCollapse, ShownCollapse] (example_sidebar [])) = 0 \<and>
   playing_clips (deliver ([SlideCarousel 2, ShowCollapse, ShownCollapse] @
      [HiddenCollapse, ShownCollapse]) (example_sidebar [])) = [0]"
proof -
  note c = example_constructor [of "[]"]
  note d = unresolved_slide [OF example_sidebar_unresolved [of "[]"], of 2]
  have n: "5 \<le> length example_clips" by (simp add: example_clips_length)
  from from_construction(1,2) [OF c n example_clips_paused, of "[]" "[ShownCollapse]"]
  have a: "lastVisibleVideo (deliver [ShowCollapse, ShownCollapse] (example_sidebar [])) = 0"
    and b: "playing_clips (deliver ([ShowCollapse, ShownCollapse] @ [HiddenCollapse, ShownCollapse])
      (example_sidebar [])) = [0]"
    by simp_all
  have e: "deliver (SlideCarousel 2 # evs) (example_sidebar []) = deliver evs (example_sidebar [])"
    for evs
    by (simp add: d)
  have l: "last_slide [SlideCarousel 2, ShowCollapse, ShownCollapse]
     (lastVisibleVideo (example_sidebar [])) = 2"
    by simp
  from c d l a b show ?thesis
    unfolding append_Cons e by simp
qed

subsection \<open>Mutual exclusion\<close>

lemma slide_silence:
  assumes inv: "playback_inv u"
    and t: "t \<in> set (take 2 (states (listener (SlideCarousel k) u) u))"
  shows "playing_clips t = []"
proof (cases "pause (lastVisibleVideo u) u")
  case (Inl e)
  with t show ?thesis by (simp add: at_lastVisibleVideo_def)
next
  case (Inr s1)
  note ch = slide_chain [OF inv Inr]
  note n1 = pause_current_inv(1) [OF inv Inr]
  show ?thesis
  proof (cases "set_currentTime k 0 s1")
    case (Inl e)
    with Inr t have "t = s1" by (simp add: at_lastVisibleVideo_def)
    with n1 show ?thesis by (simp add: playing_clips_eq_Nil)
  next
    case c2: (Inr s2)
    with Inr t have "t = s1 \<or> t = s2"
      by (auto simp add: at_lastVisibleVideo_def numeral_2_eq_2 split: sum.splits)
    with n1 ch(2) [OF c2] show ?thesis by (auto simp add: playing_clips_eq_Nil)
  qed
qed

text \<open>
  Claim C1. From a sidebar constructed over markup whose clips are all paused, every
  state passed while any sequence of events is delivered, the states between the
  statements of a listener included, has at most one clip playing; and between events
  a clip that plays is the one \<open>videos[lastVisibleVideo]\<close> refers to. Moreover, in the
  listener of a slide change no clip plays after its first statement, the pause of the
  current clip, so the clip it starts next is the only one.
\<close>

theorem playback_mutual_exclusion:
  assumes "constructor markup clips store = Inr s" and "list_all paused clips"
  shows "list_all at_most_one_playing (visited evs s) \<and>
         playback_inv (deliver evs s) \<and>
         list_all (\<lambda>t. playing_clips t = [])
           (take 2 (states (listener (SlideCarousel k) (deliver evs s)) (deliver evs s)))"
proof -
  from constructor_inv [OF assms] have "playback_inv s" .
  from visited_exclusive [OF this, of evs]
  have v: "list_all at_most_one_playing (visited evs s)" and i: "playback_inv (deliver evs s)"
    by simp_all
  from slide_silence [OF i, of _ k] have "list_all (\<lambda>t. playing_clips t = [])
      (take 2 (states (listener (SlideCarousel k) (deliver evs s)) (deliver evs s)))"
    by (simp add: list_all_iff)
  with v i show ?thesis by simp
qed

theorem playback_mutual_exclusion_witness:
  "constructor example_markup example_clips [] = Inr (example_sidebar []) \<and>
   list_all paused example_clips \<and>
   list_all at_most_one_playing
     (visited [ShowCollapse, ShownCollapse, SlideCarousel 2, HiddenCollapse, ShownCollapse,
        SlideCarousel 4] (example_sidebar [])) \<and>
   list_all (\<lambda>t. playing_clips t = [])
     (take 2 (states (listener (SlideCarousel 1)
        (deliver [ShowCollapse, ShownCollapse, SlideCarousel 2, HiddenCollapse, ShownCollapse,
           SlideCarousel 4] (example_sidebar [])))
        (deliver [ShowCollapse, ShownCollapse, SlideCarousel 2, HiddenCollapse, ShownCollapse,
           SlideCarousel 4] (example_sidebar []))))"
proof -
  note a = example_constructor [of "[]"]
  note b = example_clips_paused
  from playback_mutual_exclusion [OF a b,
      of "[ShowCollapse, ShownCollapse, SlideCarousel 2, HiddenCollapse, ShownCollapse,
        SlideCarousel 4]" 1] a b
  show ?thesis by blast
qed

subsection \<open>Showing and hiding the tab\<close>

lemma first_show:
  assumes "constructor markup clips store = Inr s0" and "5 \<le> length clips"
  shows "lastVisibleVideo (deliver [ShowCollapse, ShownCollapse] s0) = 0"
    and "currentTime (slide_videos (deliver [ShowCollapse, ShownCollapse] s0) ! 0) = 0"
    and "\<not> paused (slide_videos (deliver [ShowCollapse, ShownCollapse] s0) ! 0)"
proof -
  from assms(1) have s: "videos s0 = []" "slide_videos s0 = clips" "show_once s0"
    "lastVisibleVideo s0 = 0"
    by (auto simp add: constructor_def split: if_splits)
  from s(2) assms(2) have "5 \<le> length (slide_videos s0)" by simp
  from show_resolves [OF s(3) s(1) this] obtain s' where
    d: "dispatch ShowCollapse s0 = (None, s')"
    and v: "videos s' = map Some [0..<5]"
    and l: "length (slide_videos s') = length (slide_videos s0)"
    and i: "lastVisibleVideo s' = lastVisibleVideo s0"
    by blast
  from l s(2) assms(2) have p: "0 < length (slide_videos s')" by arith
  with v have r: "video_ref s' 0 = Some 0"
    by (simp add: video_ref_def js_get_def)
  with i s(4) have "video_ref s' (lastVisibleVideo s') = Some 0" by simp
  note sh = shown_run(2) [OF this]
  define t where "t = video_update 0 (\<lambda>v. v\<lparr>paused := False\<rparr>)
    (video_update 0 (\<lambda>v. v\<lparr>currentTime := 0\<rparr>) s')"
  from d sh have e: "deliver [ShowCollapse, ShownCollapse] s0 = t"
    by (simp add: t_def)
  from p show "currentTime (slide_videos (deliver [ShowCollapse, ShownCollapse] s0) ! 0) = 0"
    and "\<not> paused (slide_videos (deliver [ShowCollapse, ShownCollapse] s0) ! 0)"
    unfolding e by (simp_all add: t_def nth_video_update)
  from i s(4) show "lastVisibleVideo (deliver [ShowCollapse, ShownCollapse] s0) = 0"
    unfolding e by (simp add: t_def)
qed

text \<open>
  Claim C7. With the handle \<open>r\<close> of the current clip resolved: \<open>shown.bs.collapse\<close>
  puts the clip at position 0 and starts it; \<open>hidden.bs.collapse\<close> pauses it and
  leaves its position where it was; and a \<open>shown.bs.collapse\<close> after that puts it
  back at position 0 and starts it, whatever the position it was paused at. For a
  sidebar constructed over markup with at least five clips, showing the tab for the
  first time (\<open>show.bs.collapse\<close>, then \<open>shown.bs.collapse\<close>) leaves clip 0 at
  position 0 and playing. The concrete run is Scenario C, with the clip paused seven
  time units in.
\<close>

theorem tab_shown_hidden_lifecycle:
  fixes s s0 :: sidebar and r :: nat
  defines "shown \<equiv> snd (dispatch ShownCollapse s)"
  defines "hidden \<equiv> snd (dispatch HiddenCollapse s)"
  defines "reshown \<equiv> snd (dispatch ShownCollapse (snd (dispatch HiddenCollapse s)))"
  assumes "video_ref s (lastVisibleVideo s) = Some r"
  shows "dispatch ShownCollapse s =
           (None, video_update r (\<lambda>v. v\<lparr>paused := False\<rparr>)
              (video_update r (\<lambda>v. v\<lparr>currentTime := 0\<rparr>) s)) \<and>
         currentTime (slide_videos shown ! r) = 0 \<and> \<not> paused (slide_videos shown ! r) \<and>
         dispatch HiddenCollapse s = (None, video_update r (\<lambda>v. v\<lparr>paused := True\<rparr>) s) \<and>
         paused (slide_videos hidden ! r) \<and>
         currentTime (slide_videos hidden ! r) = currentTime (slide_videos s ! r) \<and>
         fst (dispatch ShownCollapse hidden) = None \<and>
         currentTime (slide_videos reshown ! r) = 0 \<and> \<not> paused (slide_videos reshown ! r) \<and>
         (constructor markup clips store = Inr s0 \<and> 5 \<le> length clips \<longrightarrow>
            lastVisibleVideo (deliver [ShowCollapse, ShownCollapse] s0) = 0 \<and>
            currentTime (slide_videos (deliver [ShowCollapse, ShownCollapse] s0) ! 0) = 0 \<and>
            \<not> paused (slide_videos (deliver [ShowCollapse, ShownCollapse] s0) ! 0))"
proof -
  from assms(4) have l: "r < length (slide_videos s)" by (rule video_ref_less)
  note sh = shown_run(2) [OF assms(4)]
  note hi = hidden_run(2) [OF assms(4)]
  have h: "hidden = video_update r (\<lambda>v. v\<lparr>paused := True\<rparr>) s"
    by (simp add: hidden_def hi)
  from assms(4) have "video_ref hidden (lastVisibleVideo hidden) = Some r"
    by (simp add: h)
  note re = shown_run(2) [OF this]
  from l have "currentTime (slide_videos shown ! r) = 0" "\<not> paused (slide_videos shown ! r)"
    by (simp_all add: shown_def sh nth_video_update)
  moreover from l have "paused (slide_videos hidden ! r)"
    "currentTime (slide_videos hidden ! r) = currentTime (slide_videos s ! r)"
    by (simp_all add: h nth_video_update)
  moreover have "fst (dispatch ShownCollapse hidden) = None"
    by (simp add: re)
  moreover from l have "currentTime (slide_videos reshown ! r) = 0"
    "\<not> paused (slide_videos reshown ! r)"
    using re by (simp_all add: reshown_def hidden_def [symmetric] h nth_video_update)
  moreover have "constructor markup clips store = Inr s0 \<and> 5 \<le> length clips \<longrightarrow>
      lastVisibleVideo (deliver [ShowCollapse, ShownCollapse] s0) = 0 \<and>
      currentTime (slide_videos (deliver [ShowCollapse, ShownCollapse] s0) ! 0) = 0 \<and>
      \<not> paused (slide_videos (deliver [ShowCollapse, ShownCollapse] s0) ! 0)"
    using first_show by blast
  ultimately show ?thesis using sh hi by simp
qed

theorem tab_shown_hidden_lifecycle_witness:
  "video_ref example_tab_open (lastVisibleVideo example_tab_open) = Some 0 \<and>
   currentTime (slide_videos example_tab_open ! 0) = 7 \<and>
   paused (slide_videos (snd (dispatch HiddenCollapse example_tab_open)) ! 0) \<and>
   currentTime (slide_videos (snd (dispatch HiddenCollapse example_tab_open)) ! 0) = 7 \<and>
   currentTime (slide_videos
     (snd (dispatch ShownCollapse (snd (dispatch HiddenCollapse example_tab_open)))) ! 0) = 0 \<and>
   \<not> paused (slide_videos
     (snd (dispatch ShownCollapse (snd (dispatch HiddenCollapse example_tab_open)))) ! 0) \<and>
   constructor example_markup example_clips [] = Inr (example_sidebar []) \<and>
   5 \<le> length example_clips \<and>
   \<not> paused (slide_videos (deliver [ShowCollapse, ShownCollapse] (example_sidebar [])) ! 0)"
proof -
  note d = example_constructor [of "[]"]
  have e: "5 \<le> length example_clips" by (simp add: example_clips_length)
  have a: "video_ref example_tab_open (lastVisibleVideo example_tab_open) = Some 0"
    by (simp add: example_tab_open_refs)
  have c: "currentTime (slide_videos example_tab_open ! 0) = 7"
    by (simp add: example_tab_open_clips resolved_clip_def)
  from tab_shown_hidden_lifecycle [OF a, of example_markup example_clips "[]" "example_sidebar []"] d e
  have "\<not> paused (slide_videos (deliver [ShowCollapse, ShownCollapse] (example_sidebar [])) ! 0)"
    by blast
  moreover from tab_shown_hidden_lifecycle [OF a]
  have "paused (slide_videos (snd (dispatch HiddenCollapse example_tab_open)) ! 0) \<and>
    currentTime (slide_videos (snd (dispatch HiddenCollapse example_tab_open)) ! 0) =
      currentTime (slide_videos example_tab_open ! 0) \<and>
    currentTime (slide_videos
      (snd (dispatch ShownCollapse (snd (dispatch HiddenCollapse example_tab_open)))) ! 0) = 0 \<and>
    \<not> paused (slide_videos
      (snd (dispatch ShownCollapse (snd (dispatch HiddenCollapse example_tab_open)))) ! 0)"
    by blast
  ultimately show ?thesis using a c d e by simp
qed

end
